theory Spec2Isabelle
  imports Main
begin

section \<open>Exceptions\<close>

text \<open>
  Every \<^verbatim>\<open>raise\<close> of the source, every failing \<^verbatim>\<open>assert\<close> and every exception
  that Python or numpy raises on the paths modelled here is a value of this type.
  The \<^verbatim>\<open>ValueError\<close>s of the source are kept apart by their message.
\<close>

datatype error =
    ExpectedEdgeArrays nat
      \<comment> \<open>"Expected %d edge arrays"\<close>
  | ExpectedEdgeFeatureArrays nat
      \<comment> \<open>"Expected %d edge feature arrays"\<close>
  | EmptyEdgeArray
      \<comment> \<open>"Empty edge array but non empty edge-feature array, for same type of edge"\<close>
  | EmptyEdgeFeatureArray
      \<comment> \<open>"Empty edge-feature array but non empty edge array, for same type of edge"\<close>
  | ExpectedTwoDimEdgeFeatures
      \<comment> \<open>"Expected a 2 dimensions edge feature arrays"\<close>
  | EdgeSizeMismatch
      \<comment> \<open>"Edge and edge feature matrices must have same size in 1st dimension"\<close>
  | BadNumberOfEdgeFeatures nat nat
      \<comment> \<open>"Types %d x %d: bad number of edge features"\<close>
  | BadNodeFeatures
      \<comment> \<open>raised by the node-only validator of the base class\<close>
  | BadWeightSize
      \<comment> \<open>raised by the weight-length validator of the base class\<close>
  | BadLabelSize
      \<comment> \<open>raised by the label-shape validator of the base class\<close>
  | IndexError
  | AttributeError
  | TypeError
  | ValueError
      \<comment> \<open>a ValueError of Python or numpy itself: unpacking, shape mismatch, impossible
         reshape, \<^verbatim>\<open>hstack\<close> of nothing\<close>
  | AssertionError

definition and_then :: "error + 'a \<Rightarrow> ('a \<Rightarrow> error + 'b) \<Rightarrow> error + 'b" where
  "and_then r f = (case r of Inl e \<Rightarrow> Inl e | Inr v \<Rightarrow> f v)"

section \<open>numpy arrays\<close>

text \<open>
  A numpy array is its shape and its elements in row-major order. Numbers are taken
  from a semiring: the model does not round, and the properties below are about
  layout, lengths and which products are summed, not about floating-point error.
\<close>

datatype 'a ndarray = NdArray (shape: "nat list") (flat: "'a list")

definition wf_array :: "'a ndarray \<Rightarrow> bool" where
  "wf_array a \<longleftrightarrow> length (flat a) = prod_list (shape a)"

definition ndim :: "'a ndarray \<Rightarrow> nat" where
  "ndim a = length (shape a)"

text \<open>\<^verbatim>\<open>len(a)\<close>: a 0-dimensional array has no length.\<close>

definition py_len :: "'a ndarray \<Rightarrow> error + nat" where
  "py_len a = (case shape a of [] \<Rightarrow> Inl TypeError | n # _ \<Rightarrow> Inr n)"

text \<open>\<^verbatim>\<open>a.shape[k]\<close> for a literal k \<ge> 0: indexing the shape tuple.\<close>

definition shape_at :: "'a ndarray \<Rightarrow> nat \<Rightarrow> error + nat" where
  "shape_at a k = (if k < length (shape a) then Inr (shape a ! k) else Inl IndexError)"

text \<open>\<^verbatim>\<open>xs[i]\<close> on a Python list, for an index that is not negative.\<close>

definition list_at :: "'a list \<Rightarrow> nat \<Rightarrow> error + 'a" where
  "list_at xs i = (if i < length xs then Inr (xs ! i) else Inl IndexError)"

text \<open>\<^verbatim>\<open>xs[i0:i1]\<close> for bounds that are not negative: the slice is clipped, never an error.\<close>

definition py_slice :: "nat \<Rightarrow> nat \<Rightarrow> 'a list \<Rightarrow> 'a list" where
  "py_slice i0 i1 xs = take (i1 - i0) (drop i0 xs)"

text \<open>Element (i, j) of a 2-dimensional array, and the array given by its elements.\<close>

definition get2 :: "'a ndarray \<Rightarrow> nat \<Rightarrow> nat \<Rightarrow> 'a" where
  "get2 a i j = flat a ! (i * (shape a ! 1) + j)"

definition tabulate2 :: "nat \<Rightarrow> nat \<Rightarrow> (nat \<Rightarrow> nat \<Rightarrow> 'a) \<Rightarrow> 'a ndarray" where
  "tabulate2 r c f = NdArray [r, c] (concat (map (\<lambda>i. map (f i) [0..<c]) [0..<r]))"

text \<open>\<^verbatim>\<open>a[i, j]\<close> with indices that are not negative.\<close>

definition item2 :: "'a ndarray \<Rightarrow> nat \<Rightarrow> nat \<Rightarrow> error + 'a" where
  "item2 a i j =
     (if ndim a = 2 \<and> i < shape a ! 0 \<and> j < shape a ! 1 then Inr (get2 a i j)
      else Inl IndexError)"

text \<open>\<^verbatim>\<open>np.cumsum\<close> of a 1-dimensional sequence.\<close>

fun cumsum_from :: "nat \<Rightarrow> nat list \<Rightarrow> nat list" where
  "cumsum_from acc [] = []"
| "cumsum_from acc (x # xs) = (acc + x) # cumsum_from (acc + x) xs"

definition cumsum :: "nat list \<Rightarrow> nat list" where
  "cumsum xs = cumsum_from 0 xs"

section \<open>The model and its layout\<close>

text \<open>
  The attributes of a \<^verbatim>\<open>NodeTypeEdgeFeatureGraphCRF\<close> that the encoder reads. The three
  sizes are attributes that \<^verbatim>\<open>_set_size_joint_feature\<close> assigns; before it has assigned
  them they do not exist (\<open>None\<close>).
\<close>

record model =
  n_types :: nat
  l_n_states :: "nat list"
  l_n_features :: "nat list"
  a_n_edge_features :: "nat ndarray"
  size_unaries :: "nat option"
  size_pairwise :: "nat option"
  size_joint_feature :: "nat option"

text \<open>
  Modelled from the spec: \<^verbatim>\<open>_iter_type_pairs\<close> of the base class \<^verbatim>\<open>TypedCRF\<close>, which is
  not part of the sources. The spec's Type-Pair Iterator enumerates the ordered pairs
  (t1, t2) in row-major order, t1 outer and t2 inner.
\<close>

definition iter_type_pairs :: "model \<Rightarrow> (nat \<times> nat) list" where
  "iter_type_pairs m =
     concat (map (\<lambda>t1. map (\<lambda>t2. (t1, t2)) [0..<n_types m]) [0..<n_types m])"

text \<open>\<^verbatim>\<open>self._n_edge_features = self.a_n_edge_features.sum(axis=None)\<close>\<close>

definition n_edge_features_total :: "model \<Rightarrow> nat" where
  "n_edge_features_total m = sum_list (flat (a_n_edge_features m))"

text \<open>The loop of \<^verbatim>\<open>_set_size_joint_feature\<close> over the type pairs.\<close>

fun size_pairwise_loop :: "model \<Rightarrow> (nat \<times> nat) list \<Rightarrow> nat \<Rightarrow> error + nat" where
  "size_pairwise_loop m [] acc = Inr acc"
| "size_pairwise_loop m ((typ1, typ2) # ps) acc =
     and_then (item2 (a_n_edge_features m) typ1 typ2) (\<lambda>nef.
     and_then (list_at (l_n_states m) typ1) (\<lambda>s1.
     and_then (list_at (l_n_states m) typ2) (\<lambda>s2.
       size_pairwise_loop m ps (acc + nef * s1 * s2))))"

definition set_size_joint_feature :: "model \<Rightarrow> error + model" where
  "set_size_joint_feature m =
     (if l_n_features m \<noteq> [] then
        (let su = sum_list (map (\<lambda>(n_states, n_features). n_states * n_features)
                              (zip (l_n_states m) (l_n_features m)))
         in and_then (size_pairwise_loop m (iter_type_pairs m) 0) (\<lambda>sp.
              Inr (m\<lparr>size_unaries := Some su, size_pairwise := Some sp,
                     size_joint_feature := Some (su + sp)\<rparr>)))
      else Inr m)"

text \<open>
  What construction establishes: one state count and one feature count per type, an
  edge-feature-count matrix of shape (n_types, n_types), and the sizes assigned by
  \<^verbatim>\<open>_set_size_joint_feature\<close>.
\<close>

definition layout_ok :: "model \<Rightarrow> bool" where
  "layout_ok m \<longleftrightarrow>
     0 < n_types m \<and>
     length (l_n_states m) = n_types m \<and>
     length (l_n_features m) = n_types m \<and>
     shape (a_n_edge_features m) = [n_types m, n_types m] \<and>
     wf_array (a_n_edge_features m)"

definition wf_model :: "model \<Rightarrow> bool" where
  "wf_model m \<longleftrightarrow> layout_ok m \<and> set_size_joint_feature m = Inr m"

text \<open>
  Modelled from the spec: the attributes \<^verbatim>\<open>_n_states\<close> and \<^verbatim>\<open>_n_features\<close> of the base
  class (total state count and total feature count, aggregated across types) and its
  offset tables \<^verbatim>\<open>_l_type_startindex\<close>, \<^verbatim>\<open>_a_feature_slice_by_typ\<close> and
  \<^verbatim>\<open>_l_edgetype_start_index\<close>, none of which is part of the sources. By the spec they
  are the cumulative state-count offsets per type, the cumulative feature-count offsets
  per type (as column ranges), and the cumulative state-product offsets per type pair
  in row-major pair order.
\<close>

definition n_states_total :: "model \<Rightarrow> nat" where
  "n_states_total m = sum_list (l_n_states m)"

definition n_features_total :: "model \<Rightarrow> nat" where
  "n_features_total m = sum_list (l_n_features m)"

definition l_type_startindex :: "model \<Rightarrow> nat list" where
  "l_type_startindex m = map (\<lambda>t. sum_list (take t (l_n_states m))) [0..<n_types m]"

definition a_feature_slice_by_typ :: "model \<Rightarrow> (nat \<times> nat) list" where
  "a_feature_slice_by_typ m =
     map (\<lambda>t. (sum_list (take t (l_n_features m)), sum_list (take (Suc t) (l_n_features m))))
       [0..<n_types m]"

definition state_products :: "model \<Rightarrow> nat list" where
  "state_products m =
     map (\<lambda>(typ1, typ2). l_n_states m ! typ1 * l_n_states m ! typ2) (iter_type_pairs m)"

definition l_edgetype_start_index :: "model \<Rightarrow> nat list" where
  "l_edgetype_start_index m =
     map (\<lambda>k. sum_list (take k (state_products m))) [0..<n_types m * n_types m]"

section \<open>Array operations used by the encoder\<close>

text \<open>\<^verbatim>\<open>np.zeros((r, c))\<close>\<close>

definition zeros2 :: "nat \<Rightarrow> nat \<Rightarrow> ('a::zero) ndarray" where
  "zeros2 r c = NdArray [r, c] (replicate (r * c) 0)"

text \<open>\<^verbatim>\<open>a.reshape(r, c)\<close>: the elements stay in row-major order.\<close>

definition reshape2 :: "'a ndarray \<Rightarrow> nat \<Rightarrow> nat \<Rightarrow> error + 'a ndarray" where
  "reshape2 a r c =
     (if length (flat a) = r * c then Inr (NdArray [r, c] (flat a)) else Inl ValueError)"

text \<open>\<^verbatim>\<open>a.T\<close> of a 2-dimensional array.\<close>

definition transpose2 :: "'a ndarray \<Rightarrow> 'a ndarray" where
  "transpose2 a = tabulate2 (shape a ! 1) (shape a ! 0) (\<lambda>i j. get2 a j i)"

text \<open>
  \<^verbatim>\<open>np.dot(a, b)\<close> of two 2-dimensional arrays. The encoder only multiplies arrays
  that it has built or reshaped itself, or marginals whose shape the label check has
  accepted; operands of another rank are reported as an error.
\<close>

definition dot2 :: "('a::semiring_0) ndarray \<Rightarrow> 'a ndarray \<Rightarrow> error + 'a ndarray" where
  "dot2 a b =
     (if ndim a = 2 \<and> ndim b = 2 \<and> shape a ! 1 = shape b ! 0 then
        Inr (tabulate2 (shape a ! 0) (shape b ! 1)
               (\<lambda>i j. sum_list (map (\<lambda>k. get2 a i k * get2 b k j) [0..<shape a ! 1])))
      else Inl ValueError)"

text \<open>
  An integer index into an axis of length n: a negative index counts from the end, an
  index outside \<open>[-n, n)\<close> is an IndexError.
\<close>

definition norm_index :: "nat \<Rightarrow> int \<Rightarrow> error + nat" where
  "norm_index n i =
     (if 0 \<le> i \<and> i < int n then Inr (nat i)
      else if - int n \<le> i \<and> i < 0 then Inr (nat (i + int n))
      else Inl IndexError)"

text \<open>\<^verbatim>\<open>ys[idx]\<close> for a 1-dimensional array \<open>ys\<close> and an integer index array \<open>idx\<close>.\<close>

fun take_at :: "'a list \<Rightarrow> int list \<Rightarrow> error + 'a list" where
  "take_at ys [] = Inr []"
| "take_at ys (i # is) =
     and_then (norm_index (length ys) i) (\<lambda>k.
     and_then (take_at ys is) (\<lambda>rest. Inr (ys ! k # rest)))"

text \<open>
  Two 1-dimensional index arrays used together are broadcast against each other: equal
  lengths pair up, a length of one is repeated, anything else is an IndexError.
\<close>

definition broadcast_pair :: "'a list \<Rightarrow> 'b list \<Rightarrow> error + ('a \<times> 'b) list" where
  "broadcast_pair xs ys =
     (if length xs = length ys then Inr (zip xs ys)
      else if length xs = 1 then Inr (map (\<lambda>y. (hd xs, y)) ys)
      else if length ys = 1 then Inr (map (\<lambda>x. (x, hd ys)) xs)
      else Inl IndexError)"

fun norm_cells :: "nat \<Rightarrow> nat \<Rightarrow> (int \<times> int) list \<Rightarrow> error + (nat \<times> nat) list" where
  "norm_cells r c [] = Inr []"
| "norm_cells r c ((i, j) # cells) =
     and_then (norm_index r i) (\<lambda>i'.
     and_then (norm_index c j) (\<lambda>j'.
     and_then (norm_cells r c cells) (\<lambda>rest. Inr ((i', j') # rest))))"

text \<open>\<^verbatim>\<open>a[rows, cols] = v\<close> for a 2-dimensional \<open>a\<close> and two integer index arrays.\<close>

definition fancy_assign2 :: "'a ndarray \<Rightarrow> int list \<Rightarrow> int list \<Rightarrow> 'a \<Rightarrow> error + 'a ndarray" where
  "fancy_assign2 a rows cols v =
     (if ndim a \<noteq> 2 then Inl IndexError
      else
        and_then (broadcast_pair rows cols) (\<lambda>cells.
        and_then (norm_cells (shape a ! 0) (shape a ! 1) cells) (\<lambda>idx.
          Inr (NdArray (shape a)
                 (fold (\<lambda>(i, j) fl. fl[i * (shape a ! 1) + j := v]) idx (flat a))))))"

text \<open>\<^verbatim>\<open>np.ogrid[i_start:i_stop]\<close>\<close>

definition ogrid :: "nat \<Rightarrow> nat \<Rightarrow> int list" where
  "ogrid i_start i_stop = map int [i_start..<i_stop]"

text \<open>
  \<^verbatim>\<open>a[i0:i1, j0:j1] = b\<close> for 2-dimensional \<open>a\<close> and \<open>b\<close>: the region is clipped to
  the array, and \<open>b\<close> must have the region's shape or broadcast to it (an axis of
  length one is repeated). The blocks assigned by the encoder are 2-dimensional: the
  instance check has passed.
\<close>

definition assign_block ::
  "'a ndarray \<Rightarrow> nat \<Rightarrow> nat \<Rightarrow> nat \<Rightarrow> nat \<Rightarrow> 'a ndarray \<Rightarrow> error + 'a ndarray" where
  "assign_block a i0 i1 j0 j1 b =
     (let r = shape a ! 0; c = shape a ! 1;
          rr = min i1 r - i0; cc = min j1 c - j0
      in if ndim a = 2 \<and> ndim b = 2
            \<and> (shape b ! 0 = rr \<or> shape b ! 0 = 1) \<and> (shape b ! 1 = cc \<or> shape b ! 1 = 1)
         then Inr (tabulate2 r c (\<lambda>i j.
                if i0 \<le> i \<and> i < i0 + rr \<and> j0 \<le> j \<and> j < j0 + cc
                then get2 b (if shape b ! 0 = 1 then 0 else i - i0)
                            (if shape b ! 1 = 1 then 0 else j - j0)
                else get2 a i j))
         else Inl ValueError)"

section \<open>Block ravel\<close>

text \<open>
  \<^verbatim>\<open>a[i0:i1, j0:j1].ravel()\<close>: the rows of \<open>a\<close> are sliced, then each kept row is
  sliced, and the result is flattened row by row. An array with fewer than two axes
  cannot take two indices. For an array with more axes, an entry of a row is the whole
  sub-array below it (of \<open>k\<close> elements).
\<close>

definition rows_of :: "'a ndarray \<Rightarrow> 'a list list" where
  "rows_of a =
     (let w = prod_list (tl (shape a))
      in map (\<lambda>i. py_slice (i * w) (i * w + w) (flat a)) [0..<hd (shape a)])"

definition slice2_ravel :: "'a ndarray \<Rightarrow> nat \<Rightarrow> nat \<Rightarrow> nat \<Rightarrow> nat \<Rightarrow> error + 'a list" where
  "slice2_ravel a i0 i1 j0 j1 =
     (if ndim a < 2 then Inl IndexError
      else
        (let k = prod_list (drop 2 (shape a))
         in Inr (concat (map (py_slice (j0 * k) (j1 * k)) (py_slice i0 i1 (rows_of a))))))"

text \<open>\<^verbatim>\<open>np.hstack\<close> of 1-dimensional arrays; it refuses an empty list.\<close>

definition hstack :: "'a list list \<Rightarrow> error + 'a list" where
  "hstack vs = (if vs = [] then Inl ValueError else Inr (concat vs))"

fun ravel_blocks ::
  "'a ndarray \<Rightarrow> ((nat \<times> nat) \<times> (nat \<times> nat)) list \<Rightarrow> error + 'a list list" where
  "ravel_blocks a [] = Inr []"
| "ravel_blocks a (((i0, i1), (j0, j1)) # bs) =
     and_then (slice2_ravel a i0 i1 j0 j1) (\<lambda>v.
     and_then (ravel_blocks a bs) (\<lambda>vs. Inr (v # vs)))"

text \<open>
  \<^verbatim>\<open>block_ravel(a, lij)\<close>. \<^verbatim>\<open>li, lj = zip(*lij)\<close> unpacks two sequences, which fails
  on an empty \<open>lij\<close>; \<^verbatim>\<open>li[1:]\<close> is the tail.
\<close>

definition block_ravel :: "'a ndarray \<Rightarrow> (nat \<times> nat) list \<Rightarrow> error + 'a list" where
  "block_ravel a lij =
     (if lij = [] then Inl ValueError
      else
        (let li = map fst lij; lj = map snd lij
         in and_then (ravel_blocks a (zip (zip li (tl li)) (zip lj (tl lj)))) hstack))"

section \<open>Instances and their validation\<close>

text \<open>
  An instance \<open>x\<close> is the tuple \<^verbatim>\<open>([node_features, ..], [edges, ..], [edge_features, ..])\<close>.
  A block that is \<^verbatim>\<open>None\<close> is \<open>None\<close>. An edge block is an integer array of shape
  (n_type_edges, 2), modelled by the list of its rows; a node-feature block and an
  edge-feature block are arrays of any shape, since the checks look at their shape.
\<close>

record 'a graph_instance =
  node_features :: "'a ndarray option list"
  edges :: "(int \<times> int) list option list"
  edge_features :: "'a ndarray option list"

text \<open>\<^verbatim>\<open>_get_edge_features_by_type(x, typ1, typ2)\<close>: \<^verbatim>\<open>x[2][typ1*self.n_types+typ2]\<close>\<close>

definition get_edge_features_by_type ::
  "model \<Rightarrow> 'a graph_instance \<Rightarrow> nat \<Rightarrow> nat \<Rightarrow> error + 'a ndarray option" where
  "get_edge_features_by_type m x typ1 typ2 = list_at (edge_features x) (typ1 * n_types m + typ2)"

text \<open>
  Modelled from the spec: \<^verbatim>\<open>TypedCRF._check_size_x\<close>, the node-only validator of the base
  class, which is not part of the sources. By the spec it validates the per-type
  node-feature blocks: one block per type, a block of shape (nodes of the type, feature
  count of the type), and a block may be absent for a type with no nodes.
\<close>

fun base_check_blocks :: "nat list \<Rightarrow> 'a ndarray option list \<Rightarrow> error + unit" where
  "base_check_blocks [] [] = Inr ()"
| "base_check_blocks (n # ns) (None # bs) = base_check_blocks ns bs"
| "base_check_blocks (n # ns) (Some b # bs) =
     (if ndim b = 2 \<and> shape b ! 1 = n then base_check_blocks ns bs else Inl BadNodeFeatures)"
| "base_check_blocks _ _ = Inl BadNodeFeatures"

definition base_check_size_x :: "model \<Rightarrow> 'a graph_instance \<Rightarrow> error + unit" where
  "base_check_size_x m x =
     (if length (node_features x) \<noteq> n_types m then Inl BadNodeFeatures
      else base_check_blocks (l_n_features m) (node_features x))"

text \<open>The first loop of \<^verbatim>\<open>_check_size_x\<close>, over \<^verbatim>\<open>zip(l_edges, l_edge_features)\<close>.\<close>

fun check_edge_pairs ::
  "((int \<times> int) list option \<times> 'a ndarray option) list \<Rightarrow> error + unit" where
  "check_edge_pairs [] = Inr ()"
| "check_edge_pairs ((None, None) # ps) = check_edge_pairs ps"
| "check_edge_pairs ((None, Some ef) # ps) = Inl EmptyEdgeArray"
| "check_edge_pairs ((Some es, None) # ps) = Inl EmptyEdgeFeatureArray"
| "check_edge_pairs ((Some es, Some ef) # ps) =
     (if ndim ef \<noteq> 2 then Inl ExpectedTwoDimEdgeFeatures
      else and_then (py_len ef) (\<lambda>n.
        if length es \<noteq> n then Inl EdgeSizeMismatch else check_edge_pairs ps))"

text \<open>The second loop of \<^verbatim>\<open>_check_size_x\<close>, over the type pairs.\<close>

fun check_edge_feature_sizes ::
  "model \<Rightarrow> 'a graph_instance \<Rightarrow> (nat \<times> nat) list \<Rightarrow> error + unit" where
  "check_edge_feature_sizes m x [] = Inr ()"
| "check_edge_feature_sizes m x ((typ1, typ2) # ps) =
     and_then (get_edge_features_by_type m x typ1 typ2) (\<lambda>ef.
       case ef of
         None \<Rightarrow> check_edge_feature_sizes m x ps
       | Some f \<Rightarrow>
           and_then (shape_at f 1) (\<lambda>c.
           and_then (item2 (a_n_edge_features m) typ1 typ2) (\<lambda>d.
             if c \<noteq> d then Inl (BadNumberOfEdgeFeatures typ1 typ2)
             else check_edge_feature_sizes m x ps)))"

definition check_size_x :: "model \<Rightarrow> 'a graph_instance \<Rightarrow> error + unit" where
  "check_size_x m x =
     (if length (edges x) \<noteq> (n_types m)\<^sup>2 then Inl (ExpectedEdgeArrays ((n_types m)\<^sup>2))
      else if length (edge_features x) \<noteq> (n_types m)\<^sup>2
        then Inl (ExpectedEdgeFeatureArrays ((n_types m)\<^sup>2))
      else
        and_then (base_check_size_x m x) (\<lambda>_.
        and_then (check_edge_pairs (zip (edges x) (edge_features x))) (\<lambda>_.
          check_edge_feature_sizes m x (iter_type_pairs m))))"

section \<open>Labelings\<close>

text \<open>
  \<open>y\<close> is either a list of one integer label array per node type, or the tuple
  \<^verbatim>\<open>(unary_marginals, pairwise_marginals)\<close> of a relaxation; the source tells them
  apart with \<^verbatim>\<open>isinstance(y, tuple)\<close>.
\<close>

datatype 'a labeling = Discrete "int list list" | Relaxed "'a ndarray" "'a ndarray"

fun map_err :: "('a \<Rightarrow> error + 'b) \<Rightarrow> 'a list \<Rightarrow> error + 'b list" where
  "map_err f [] = Inr []"
| "map_err f (x # xs) =
     and_then (f x) (\<lambda>v. and_then (map_err f xs) (\<lambda>vs. Inr (v # vs)))"

text \<open>
  Modelled from the spec: the cleaned accessors \<^verbatim>\<open>_get_node_features(x, True)\<close> and
  \<^verbatim>\<open>_get_edges(x, True)\<close> of the base class, which are not part of the sources. By the
  spec, node and edge counts are summed per type and per type pair, treating an absent
  block as zero; \<^verbatim>\<open>_get_edge_features(x, True)\<close> in the sources does the same for edge
  features. The encoder takes \<^verbatim>\<open>len(o)\<close> of a cleaned node block and
  \<^verbatim>\<open>edges.shape[0]\<close> of a cleaned edge block.
\<close>

definition node_block_rows :: "'a ndarray option \<Rightarrow> error + nat" where
  "node_block_rows b = (case b of None \<Rightarrow> Inr 0 | Some a \<Rightarrow> py_len a)"

definition edge_block_rows :: "(int \<times> int) list option \<Rightarrow> nat" where
  "edge_block_rows b = (case b of None \<Rightarrow> 0 | Some es \<Rightarrow> length es)"

text \<open>
  Modelled from the spec: \<^verbatim>\<open>_check_size_y\<close> of the base class, which is not part of the
  sources. By the spec, \<^verbatim>\<open>joint_feature\<close> fails if the per-type label arrays or the
  marginals disagree in shape with the node and edge counts of \<open>x\<close>: a discrete labeling
  has one label array per type, as long as the type has nodes; unary marginals are a
  (total node count, total state count) matrix and pairwise marginals a (total edge
  count, total state count squared) matrix.
\<close>

definition check_size_y :: "model \<Rightarrow> 'a graph_instance \<Rightarrow> 'a labeling \<Rightarrow> error + unit" where
  "check_size_y m x y =
     and_then (map_err node_block_rows (node_features x)) (\<lambda>l_n_nodes.
       case y of
         Discrete ys \<Rightarrow> (if map length ys = l_n_nodes then Inr () else Inl BadLabelSize)
       | Relaxed um pw \<Rightarrow>
           (if shape um = [sum_list l_n_nodes, n_states_total m]
               \<and> shape pw = [sum_list (map edge_block_rows (edges x)), (n_states_total m)\<^sup>2]
            then Inr () else Inl BadLabelSize))"

section \<open>Joint feature vector\<close>

text \<open>The class attribute \<^verbatim>\<open>bPW_std = True\<close>.\<close>

definition bPW_std :: bool where
  "bPW_std = True"

text \<open>
  The one-hot encoding of the node labels: the loop over
  \<^verbatim>\<open>zip(l_node_features, self._l_type_startindex, y)\<close>, which skips a type whose
  node-feature block is \<^verbatim>\<open>None\<close>.
\<close>

fun unary_onehot_loop ::
  "('a ndarray option \<times> nat \<times> int list) list \<Rightarrow> nat \<Rightarrow> ('a::one) ndarray
     \<Rightarrow> error + 'a ndarray" where
  "unary_onehot_loop [] i_start um = Inr um"
| "unary_onehot_loop ((None, typ_start_index, y_typ) # rest) i_start um =
     unary_onehot_loop rest i_start um"
| "unary_onehot_loop ((Some nf, typ_start_index, y_typ) # rest) i_start um =
     and_then (shape_at nf 0) (\<lambda>n.
       let i_stop = i_start + n
       in and_then (fancy_assign2 um (ogrid i_start i_stop)
                      (map (\<lambda>l. int typ_start_index + l) y_typ) 1) (\<lambda>um'.
            unary_onehot_loop rest i_stop um'))"

text \<open>
  The one-hot encoding of the edge labels: the loop over
  \<^verbatim>\<open>zip(self._iter_type_pairs(), l_edges, self._l_edgetype_start_index)\<close>, which skips a
  pair whose edge block is \<^verbatim>\<open>None\<close>. It returns the final \<^verbatim>\<open>i_start\<close> with the matrix.
\<close>

fun pairwise_onehot_loop ::
  "model \<Rightarrow> int list list \<Rightarrow> ((nat \<times> nat) \<times> (int \<times> int) list option \<times> nat) list
     \<Rightarrow> nat \<Rightarrow> ('a::one) ndarray \<Rightarrow> error + (nat \<times> 'a ndarray)" where
  "pairwise_onehot_loop m y [] i_start pw = Inr (i_start, pw)"
| "pairwise_onehot_loop m y (((typ1, typ2), None, edgetype_start_index) # rest) i_start pw =
     pairwise_onehot_loop m y rest i_start pw"
| "pairwise_onehot_loop m y (((typ1, typ2), Some es, edgetype_start_index) # rest) i_start pw =
     and_then (list_at y typ1) (\<lambda>y_typ1.
     and_then (list_at y typ2) (\<lambda>y_typ2.
     and_then (take_at y_typ1 (map fst es)) (\<lambda>y1.
     and_then (take_at y_typ2 (map snd es)) (\<lambda>y2.
       let i_stop = i_start + length es
       in and_then (list_at (l_n_states m) typ2) (\<lambda>s2.
          and_then (fancy_assign2 pw (ogrid i_start i_stop)
                      (map (\<lambda>(l1, l2). int edgetype_start_index + int s2 * l1 + l2) (zip y1 y2)) 1)
            (\<lambda>pw'. pairwise_onehot_loop m y rest i_stop pw'))))))"

definition discrete_marginals ::
  "model \<Rightarrow> 'a graph_instance \<Rightarrow> int list list \<Rightarrow> nat \<Rightarrow> nat
     \<Rightarrow> error + (('a::{zero,one}) ndarray \<times> 'a ndarray)" where
  "discrete_marginals m x y n_nodes n_edges =
     and_then (unary_onehot_loop (zip (node_features x) (zip (l_type_startindex m) y)) 0
                 (zeros2 n_nodes (n_states_total m))) (\<lambda>unary_marginals.
     and_then (pairwise_onehot_loop m y
                 (zip (iter_type_pairs m) (zip (edges x) (l_edgetype_start_index m))) 0
                 (zeros2 n_edges ((n_states_total m)\<^sup>2))) (\<lambda>(i_start, pw).
       if i_start = n_edges then Inr (unary_marginals, pw) else Inl AssertionError))"

text \<open>
  The stacked node-feature matrix: the loop over
  \<^verbatim>\<open>zip(self._a_feature_slice_by_typ, l_node_features)\<close>. It reads
  \<^verbatim>\<open>node_features.shape[0]\<close> of every block, also of one that is \<^verbatim>\<open>None\<close>.
\<close>

fun stack_node_features ::
  "((nat \<times> nat) \<times> 'a ndarray option) list \<Rightarrow> nat \<Rightarrow> 'a ndarray \<Rightarrow> error + (nat \<times> 'a ndarray)" where
  "stack_node_features [] i_start a = Inr (i_start, a)"
| "stack_node_features (((c0, c1), None) # rest) i_start a = Inl AttributeError"
| "stack_node_features (((c0, c1), Some nf) # rest) i_start a =
     and_then (shape_at nf 0) (\<lambda>n.
       let i_stop = i_start + n
       in and_then (assign_block a i_start i_stop c0 c1 nf) (\<lambda>a'.
            stack_node_features rest i_stop a'))"

text \<open>
  The stacked edge-feature matrix: the loop over \<^verbatim>\<open>l_edge_features\<close>, which skips a
  block that is \<^verbatim>\<open>None\<close> and unpacks the shape of the others into two numbers.
\<close>

fun stack_edge_features ::
  "'a ndarray option list \<Rightarrow> nat \<Rightarrow> nat \<Rightarrow> 'a ndarray \<Rightarrow> error + 'a ndarray" where
  "stack_edge_features [] i_start i_col_start a = Inr a"
| "stack_edge_features (None # rest) i_start i_col_start a =
     stack_edge_features rest i_start i_col_start a"
| "stack_edge_features (Some ef # rest) i_start i_col_start a =
     (case shape ef of
        [nb_edges, nb_features] \<Rightarrow>
          (let i_stop = i_start + nb_edges; i_col_stop = i_col_start + nb_features
           in and_then (assign_block a i_start i_stop i_col_start i_col_stop ef) (\<lambda>a'.
                stack_edge_features rest i_stop i_col_stop a'))
      | _ \<Rightarrow> Inl ValueError)"

text \<open>\<^verbatim>\<open>assert n == self.size_...\<close>: reading a size that was never assigned fails first.\<close>

definition assert_size :: "nat \<Rightarrow> nat option \<Rightarrow> error + unit" where
  "assert_size n size_attr =
     (case size_attr of
        None \<Rightarrow> Inl AttributeError
      | Some s \<Rightarrow> if n = s then Inr () else Inl AssertionError)"

text \<open>
  \<^verbatim>\<open>[self.l_n_states[typ1] * self.l_n_states[typ2] for typ1, typ2 in self._iter_type_pairs()]\<close>
\<close>

definition state_products_of :: "model \<Rightarrow> error + nat list" where
  "state_products_of m =
     map_err (\<lambda>(typ1, typ2).
        and_then (list_at (l_n_states m) typ1) (\<lambda>s1.
        and_then (list_at (l_n_states m) typ2) (\<lambda>s2. Inr (s1 * s2))))
       (iter_type_pairs m)"

text \<open>
  The second half of \<^verbatim>\<open>joint_feature\<close>, from the comment \<^verbatim>\<open>#UNARY\<close> on: the two
  activation matrices are fixed, the feature blocks are stacked, multiplied with the
  activations, and the diagonal blocks of the two products are ravelled and joined.
\<close>

definition assemble_joint_feature ::
  "model \<Rightarrow> 'a graph_instance \<Rightarrow> nat \<Rightarrow> nat \<Rightarrow> 'a ndarray \<Rightarrow> 'a ndarray
     \<Rightarrow> error + ('a::semiring_1) list" where
  "assemble_joint_feature m x n_nodes n_edges unary_marginals pw =
     and_then (stack_node_features (zip (a_feature_slice_by_typ m) (node_features x)) 0
                 (zeros2 n_nodes (n_features_total m))) (\<lambda>(i_start, all_node_features).
       if i_start \<noteq> n_nodes then Inl AssertionError
       else
     and_then (dot2 (transpose2 unary_marginals) all_node_features) (\<lambda>unaries_acc.
     and_then (stack_edge_features (edge_features x) 0 0
                 (zeros2 n_edges (n_edge_features_total m))) (\<lambda>all_edge_features.
     and_then (if bPW_std then dot2 (transpose2 all_edge_features) pw
               else dot2 (transpose2 pw) all_edge_features) (\<lambda>pairwise_acc.
     and_then (block_ravel unaries_acc
                 ((0, 0) # zip (cumsum (l_n_states m)) (cumsum (l_n_features m))))
       (\<lambda>unaries_acc_ravelled.
     and_then (assert_size (length unaries_acc_ravelled) (size_unaries m)) (\<lambda>_.
     and_then (state_products_of m) (\<lambda>products.
       let L1 = cumsum (flat (a_n_edge_features m));
           L2 = cumsum products
       in
     and_then (block_ravel pairwise_acc
                 ((0, 0) # (if bPW_std then zip L1 L2 else zip L2 L1)))
       (\<lambda>pairwise_acc_ravelled.
     and_then (assert_size (length pairwise_acc_ravelled) (size_pairwise m)) (\<lambda>_.
       let joint_feature_vector = unaries_acc_ravelled @ pairwise_acc_ravelled
       in
     and_then (assert_size (length joint_feature_vector) (size_joint_feature m)) (\<lambda>_.
       Inr joint_feature_vector))))))))))"

text \<open>
  \<^verbatim>\<open>joint_feature(x, y)\<close>: the two checks, the node and edge counts, the activation
  matrices (the marginals of a relaxation, or the one-hot encoding of a labeling), and
  the assembly.
\<close>

definition joint_feature ::
  "model \<Rightarrow> 'a graph_instance \<Rightarrow> 'a labeling \<Rightarrow> error + ('a::semiring_1) list" where
  "joint_feature m x y =
     and_then (check_size_x m x) (\<lambda>_.
     and_then (check_size_y m x y) (\<lambda>_.
     and_then (map_err node_block_rows (node_features x)) (\<lambda>l_n_nodes.
       let l_n_edges = map edge_block_rows (edges x);
           n_nodes = sum_list l_n_nodes;
           n_edges = sum_list l_n_edges
       in
     and_then (case y of
                 Relaxed unary_marginals pw \<Rightarrow>
                   and_then (reshape2 unary_marginals n_nodes (n_states_total m)) (\<lambda>um.
                     Inr (um, pw))
               | Discrete ys \<Rightarrow> discrete_marginals m x ys n_nodes n_edges)
       (\<lambda>(unary_marginals, pw).
          assemble_joint_feature m x n_nodes n_edges unary_marginals pw))))"

section \<open>Pairwise potentials\<close>

text \<open>
  Modelled from the spec: \<^verbatim>\<open>_check_size_w\<close> of the base class, the weight-vector length
  validator, which is not part of the sources. By the spec, \<^verbatim>\<open>pairwise_potentials\<close>
  fails if the length of the weights differs from the total size.
\<close>

definition check_size_w :: "model \<Rightarrow> 'a ndarray \<Rightarrow> error + unit" where
  "check_size_w m w =
     (case size_joint_feature m of
        None \<Rightarrow> Inl AttributeError
      | Some n \<Rightarrow> if shape w \<noteq> [n] then Inl BadWeightSize else Inr ())"

text \<open>
  \<^verbatim>\<open>_get_pairwise_potentials\<close> reads the attributes \<^verbatim>\<open>n_states\<close>, \<^verbatim>\<open>n_features\<close> and
  \<^verbatim>\<open>n_edge_features\<close>, which the sources never assign (they assign \<^verbatim>\<open>_n_edge_features\<close>).
  They are parameters here: \<open>None\<close> for an attribute that the object does not have.
\<close>

record single_type_attrs =
  n_states :: "nat option"
  n_features :: "nat option"
  n_edge_features :: "nat option"

definition read_attr :: "'v option \<Rightarrow> error + 'v" where
  "read_attr a = (case a of None \<Rightarrow> Inl AttributeError | Some v \<Rightarrow> Inr v)"

text \<open>\<^verbatim>\<open>v.reshape(n, -1)\<close> of a 1-dimensional array.\<close>

definition reshape_rows :: "'a list \<Rightarrow> nat \<Rightarrow> error + 'a ndarray" where
  "reshape_rows v n =
     (if 0 < n \<and> length v mod n = 0 then Inr (NdArray [n, length v div n] v)
      else Inl ValueError)"

text \<open>
  \<^verbatim>\<open>_get_pairwise_potentials(x, w)\<close>. \<^verbatim>\<open>edge_features\<close> is \<^verbatim>\<open>x[2]\<close>, the Python list of
  the edge-feature blocks. What \<^verbatim>\<open>np.dot\<close> makes of a list of arrays of different
  shapes depends on numpy, so it is the parameter \<open>np_dot\<close>, which may fail or return
  anything. The arguments of the final \<^verbatim>\<open>reshape\<close> are evaluated next, and
  \<^verbatim>\<open>edge_features.shape\<close> of a list is an AttributeError.
\<close>

definition get_pairwise_potentials ::
  "single_type_attrs \<Rightarrow> ('a ndarray option list \<Rightarrow> 'a ndarray \<Rightarrow> error + 'r)
     \<Rightarrow> model \<Rightarrow> 'a graph_instance \<Rightarrow> 'a ndarray \<Rightarrow> error + 'r" where
  "get_pairwise_potentials attrs np_dot m x w =
     and_then (check_size_w m w) (\<lambda>_.
     and_then (check_size_x m x) (\<lambda>_.
       let l_edge_features = edge_features x
       in
     and_then (read_attr (n_states attrs)) (\<lambda>ns.
     and_then (read_attr (n_features attrs)) (\<lambda>nf.
       let pairwise = drop (ns * nf) (flat w)
       in
     and_then (read_attr (n_edge_features attrs)) (\<lambda>nef.
     and_then (reshape_rows pairwise nef) (\<lambda>pairwise.
     and_then (np_dot l_edge_features pairwise) (\<lambda>product.
       Inl AttributeError)))))))"

section \<open>Statements of the specification\<close>

text \<open>
  The spec's concrete layout scenario: 2 node types, type 0 with 2 states and 3
  features, type 1 with 3 states and 2 features, edge-feature matrix [[1,2],[2,0]].
\<close>

definition example_model :: model where
  "example_model =
     \<lparr>n_types = 2, l_n_states = [2, 3], l_n_features = [3, 2],
      a_n_edge_features = NdArray [2, 2] [1, 2, 2, 0],
      size_unaries = None, size_pairwise = None, size_joint_feature = None\<rparr>"


text \<open>
  The spec's Block Ravel, in its words: for every block \<open>k\<close>, the sub-matrix of row-block
  \<open>k\<close> (the rows from the k-th row cut-point up to the next one) and column-block \<open>k\<close>,
  flattened in row-major order; the flattened blocks concatenated in block order.
\<close>

definition diagonal_blocks :: "'a ndarray \<Rightarrow> (nat \<times> nat) list \<Rightarrow> 'a list" where
  "diagonal_blocks a lij =
     concat (map (\<lambda>k.
        concat (map (\<lambda>i. map (\<lambda>j. get2 a i j) [snd (lij ! k)..<snd (lij ! Suc k)])
                  [fst (lij ! k)..<fst (lij ! Suc k)]))
       [0..<length lij - 1])"

text \<open>
  The spec's Layout Calculator, in its words: the unary size is the sum over the types
  of states times features, the pairwise size the sum over the ordered type pairs of
  edge features times states of the first type times states of the second type.
\<close>

definition unary_size :: "model \<Rightarrow> nat" where
  "unary_size m = (\<Sum>t<n_types m. l_n_states m ! t * l_n_features m ! t)"

definition pairwise_size :: "model \<Rightarrow> nat" where
  "pairwise_size m =
     (\<Sum>t1<n_types m. \<Sum>t2<n_types m.
        get2 (a_n_edge_features m) t1 t2 * l_n_states m ! t1 * l_n_states m ! t2)"

text \<open>A 3 by 4 matrix with entry 10 i + j at (i, j), and cut-points for two blocks.\<close>

definition example_matrix :: "int ndarray" where
  "example_matrix = NdArray [3, 4] [0, 1, 2, 3, 10, 11, 12, 13, 20, 21, 22, 23]"

definition example_cuts :: "(nat \<times> nat) list" where
  "example_cuts = [(0, 0), (1, 2), (3, 4)]"

text \<open>
  The spec's Instance Validator on one type pair, in its words: the edge block and the
  edge-feature block are jointly absent or jointly present, and a present edge-feature
  block is 2-dimensional with the row count of its edge block.
\<close>

definition edge_pair_ok :: "(int \<times> int) list option \<Rightarrow> 'a ndarray option \<Rightarrow> bool" where
  "edge_pair_ok e f =
     (case (e, f) of
        (None, None) \<Rightarrow> True
      | (Some es, Some ef) \<Rightarrow> ndim ef = 2 \<and> shape ef ! 0 = length es
      | _ \<Rightarrow> False)"

text \<open>
  The spec's column check on one type pair, in its words: a present edge-feature block
  has as many columns as the model declares for the pair.
\<close>

definition edge_feature_columns_ok :: "model \<Rightarrow> 'a graph_instance \<Rightarrow> nat \<Rightarrow> nat \<Rightarrow> bool" where
  "edge_feature_columns_ok m x typ1 typ2 =
     (case edge_features x ! (typ1 * n_types m + typ2) of
        None \<Rightarrow> True
      | Some f \<Rightarrow> shape_at f 1 = Inr (get2 (a_n_edge_features m) typ1 typ2))"

text \<open>
  The spec's scenario as a constructed model, with the sizes assigned, and an instance
  for it: two nodes of type 0, one node of type 1, one edge between nodes of type 0, two
  edges from type 0 to type 1, and no edge for the pairs (1, 0) and (1, 1), whose blocks
  are present with zero rows.
\<close>

definition encoder_model :: model where
  "encoder_model =
     example_model\<lparr>size_unaries := Some 12, size_pairwise := Some 28,
                   size_joint_feature := Some 40\<rparr>"

definition example_instance :: "int graph_instance" where
  "example_instance =
     \<lparr>node_features = [Some (NdArray [2, 3] [1, 2, 3, 4, 5, 6]), Some (NdArray [1, 2] [7, 8])],
      edges = [Some [(0, 1)], Some [(0, 0), (1, 0)], Some [], Some []],
      edge_features = [Some (NdArray [1, 1] [5]), Some (NdArray [2, 2] [1, 2, 3, 4]),
                       Some (NdArray [0, 2] []), Some (NdArray [0, 0] [])]\<rparr>"


text \<open>The same instance with one column instead of two in the block of the pair (1, 0).\<close>

definition instance_bad_columns :: "int graph_instance" where
  "instance_bad_columns =
     example_instance\<lparr>edge_features :=
       [Some (NdArray [1, 1] [5]), Some (NdArray [2, 2] [1, 2, 3, 4]),
        Some (NdArray [0, 1] []), Some (NdArray [0, 0] [])]\<rparr>"

text \<open>
  An instance for the same model in which type 1 has no node: its node-feature block is
  absent, and only the pair (0, 0) has an edge.
\<close>

definition instance_without_nodes :: "int graph_instance" where
  "instance_without_nodes =
     \<lparr>node_features = [Some (NdArray [2, 3] [1, 2, 3, 4, 5, 6]), None],
      edges = [Some [(0, 1)], Some [], Some [], Some []],
      edge_features = [Some (NdArray [1, 1] [5]), Some (NdArray [0, 2] []),
                       Some (NdArray [0, 2] []), Some (NdArray [0, 0] [])]\<rparr>"

text \<open>A weight vector that is too short for the model, and one of the right length.\<close>

definition short_weights :: "int ndarray" where
  "short_weights = NdArray [3] [1, 2, 3]"

definition example_weights :: "int ndarray" where
  "example_weights = NdArray [40] (replicate 40 1)"

text \<open>
  Values for the attributes that \<^verbatim>\<open>_get_pairwise_potentials\<close> reads, and a \<^verbatim>\<open>np.dot\<close> that
  returns.
\<close>

definition example_attrs :: single_type_attrs where
  "example_attrs = \<lparr>n_states = Some 5, n_features = Some 5, n_edge_features = Some 5\<rparr>"

definition dot_returns :: "int ndarray option list \<Rightarrow> int ndarray \<Rightarrow> error + unit" where
  "dot_returns blocks weights = Inr ()"

section \<open>Valid instances and labelings\<close>

text \<open>
  The data model of the spec and of the class docstring. A valid instance has one
  node-feature array per type, of shape (nodes of the type, features of the type); per
  ordered type pair an edge block and an edge-feature block that are jointly absent, or
  present with shapes (edges of the pair, 2) and (edges of the pair, edge features of
  the pair), every edge holding the index of a node of the first type and the index of
  a node of the second type. A valid discrete labeling has one label per node, and a
  label of a node of type t is one of the states of t.
\<close>

definition n_nodes_of_type :: "'a graph_instance \<Rightarrow> nat \<Rightarrow> nat" where
  "n_nodes_of_type x t = (case node_features x ! t of None \<Rightarrow> 0 | Some a \<Rightarrow> shape a ! 0)"

definition valid_instance :: "model \<Rightarrow> 'a graph_instance \<Rightarrow> bool" where
  "valid_instance m x \<longleftrightarrow>
     length (node_features x) = n_types m
     \<and> length (edges x) = (n_types m)\<^sup>2
     \<and> length (edge_features x) = (n_types m)\<^sup>2
     \<and> (\<forall>t \<in> {..<n_types m}.
           case node_features x ! t of
             None \<Rightarrow> False
           | Some a \<Rightarrow> ndim a = 2 \<and> shape a ! 1 = l_n_features m ! t \<and> wf_array a)
     \<and> (\<forall>t1 \<in> {..<n_types m}. \<forall>t2 \<in> {..<n_types m}.
           case (edges x ! (t1 * n_types m + t2), edge_features x ! (t1 * n_types m + t2)) of
             (None, None) \<Rightarrow> True
           | (Some es, Some f) \<Rightarrow>
               shape f = [length es, get2 (a_n_edge_features m) t1 t2] \<and> wf_array f
               \<and> (\<forall>(a, b) \<in> set es.
                     0 \<le> a \<and> a < int (n_nodes_of_type x t1)
                     \<and> 0 \<le> b \<and> b < int (n_nodes_of_type x t2))
           | _ \<Rightarrow> False)"

definition valid_labeling :: "model \<Rightarrow> 'a graph_instance \<Rightarrow> int list list \<Rightarrow> bool" where
  "valid_labeling m x y \<longleftrightarrow>
     length y = n_types m
     \<and> (\<forall>t \<in> {..<n_types m}.
           length (y ! t) = n_nodes_of_type x t
           \<and> (\<forall>l \<in> set (y ! t). 0 \<le> l \<and> l < int (l_n_states m ! t)))"

section \<open>One-hot marginals\<close>

text \<open>
  The marginals that put mass 1 on the observed labels and 0 elsewhere, in the spec's
  words. Unary: one row per node, in the global, type-ordered node ordering, with the 1
  in the column of the node's label within the columns of its type (the cumulative
  state offsets). Pairwise: one row per edge, pairs in row-major order and edges in
  their given order within a pair, with the 1 at the index
  states(t2) * label(t1-endpoint) + label(t2-endpoint) within the column block of the
  pair (the cumulative state-product offsets).
\<close>

definition node_state_columns :: "model \<Rightarrow> int list list \<Rightarrow> int list" where
  "node_state_columns m y =
     concat (map (\<lambda>t. map (\<lambda>l. int (l_type_startindex m ! t) + l) (y ! t)) [0..<n_types m])"

definition onehot_unary :: "model \<Rightarrow> int list list \<Rightarrow> ('a::{zero,one}) ndarray" where
  "onehot_unary m y =
     tabulate2 (length (node_state_columns m y)) (n_states_total m)
       (\<lambda>i j. if node_state_columns m y ! i = int j then 1 else 0)"

definition edge_state_columns :: "model \<Rightarrow> 'a graph_instance \<Rightarrow> int list list \<Rightarrow> int list" where
  "edge_state_columns m x y =
     concat (map (\<lambda>(t1, t2).
        case edges x ! (t1 * n_types m + t2) of
          None \<Rightarrow> []
        | Some es \<Rightarrow>
            map (\<lambda>(a, b). int (l_edgetype_start_index m ! (t1 * n_types m + t2))
                           + int (l_n_states m ! t2) * (y ! t1 ! nat a) + y ! t2 ! nat b) es)
       (iter_type_pairs m))"

definition onehot_pairwise ::
  "model \<Rightarrow> 'a graph_instance \<Rightarrow> int list list \<Rightarrow> ('b::{zero,one}) ndarray" where
  "onehot_pairwise m x y =
     tabulate2 (length (edge_state_columns m x y)) ((n_states_total m)\<^sup>2)
       (\<lambda>i j. if edge_state_columns m x y ! i = int j then 1 else 0)"

text \<open>
  The columns that the one-hot loops of \<^verbatim>\<open>joint_feature\<close> set, row after row, for the
  triples they iterate over.
\<close>

definition loop_node_columns :: "('a ndarray option \<times> nat \<times> int list) list \<Rightarrow> int list" where
  "loop_node_columns zs =
     concat (map (\<lambda>(b, start, y_typ). map (\<lambda>l. int start + l) y_typ) zs)"

definition loop_edge_columns ::
  "model \<Rightarrow> int list list \<Rightarrow> ((nat \<times> nat) \<times> (int \<times> int) list option \<times> nat) list \<Rightarrow> int list" where
  "loop_edge_columns m y zs =
     concat (map (\<lambda>((t1, t2), eo, start).
        case eo of
          None \<Rightarrow> []
        | Some es \<Rightarrow>
            map (\<lambda>(a, b). int start + int (l_n_states m ! t2) * (y ! t1 ! nat a) + y ! t2 ! nat b) es)
       zs)"

section \<open>The contribution of a type pair\<close>

text \<open>
  The rows of the stacked edge matrices that come before those of the pair at position
  \<open>q\<close>, and the block of the output that belongs to that pair, computed from the pair's
  own edge block and edge-feature block and from the labels alone: for each edge
  feature \<open>k\<close> of the pair and each state pair \<open>c\<close>, the sum over the edges of the pair
  of feature \<open>k\<close> of the edge, counted when the labels of its two endpoints are the state
  pair \<open>c\<close>. A pair whose blocks are absent has a block of zeros.
\<close>

definition edge_row_offset :: "'a graph_instance \<Rightarrow> nat \<Rightarrow> nat" where
  "edge_row_offset x q = sum_list (take q (map edge_block_rows (edges x)))"

definition pair_block ::
  "model \<Rightarrow> 'a graph_instance \<Rightarrow> int list list \<Rightarrow> nat \<Rightarrow> ('a::semiring_1) list" where
  "pair_block m x y q =
     (let t1 = q div n_types m; t2 = q mod n_types m;
          nk = flat (a_n_edge_features m) ! q;
          nc = l_n_states m ! t1 * l_n_states m ! t2
      in case (edges x ! q, edge_features x ! q) of
           (Some es, Some f) \<Rightarrow>
             concat (map (\<lambda>k. map (\<lambda>c.
                 sum_list (map (\<lambda>e.
                     get2 f e k *
                       (if int (l_n_states m ! t2) * (y ! t1 ! nat (fst (es ! e)))
                             + y ! t2 ! nat (snd (es ! e)) = int c
                        then 1 else 0))
                   [0..<length es]))
               [0..<nc]) [0..<nk])
         | _ \<Rightarrow> replicate (nk * nc) 0)"

section \<open>Basic facts\<close>


lemma and_then_Inr [simp]: "and_then (Inr v) f = f v"
  by (simp add: and_then_def)

lemma and_then_Inl [simp]: "and_then (Inl e) f = Inl e"
  by (simp add: and_then_def)

lemma and_then_eq_Inr:
  "and_then r f = Inr v \<longleftrightarrow> (\<exists>u. r = Inr u \<and> f u = Inr v)"
  by (cases r) simp_all

subsection \<open>Tabulated arrays\<close>

lemma length_concat_table:
  "length (concat (map (\<lambda>i. map (f i) [0..<c]) [0..<r])) = r * c"
  by (induction r) simp_all

lemma nth_concat_table:
  assumes "i < r" "j < c"
  shows "concat (map (\<lambda>i. map (f i) [0..<c]) [0..<r]) ! (i * c + j) = f i j"
  using assms
proof (induction r)
  case 0
  then show ?case by simp
next
  case (Suc r)
  show ?case
  proof (cases "i < r")
    case True
    then have "Suc i \<le> r" by simp
    then have "Suc i * c \<le> r * c" by (rule mult_le_mono1)
    with Suc.prems have "i * c + j < r * c" by simp
    with Suc True show ?thesis
      by (simp add: nth_append length_concat_table)
  next
    case False
    with Suc.prems have "i = r" by simp
    with Suc.prems show ?thesis
      by (simp add: nth_append length_concat_table)
  qed
qed

lemma shape_tabulate2 [simp]: "shape (tabulate2 r c f) = [r, c]"
  by (simp add: tabulate2_def)

lemma ndim_tabulate2 [simp]: "ndim (tabulate2 r c f) = 2"
  by (simp add: ndim_def)

lemma wf_tabulate2 [simp]: "wf_array (tabulate2 r c f)"
  by (simp add: wf_array_def tabulate2_def length_concat_table)

lemma get2_tabulate2 [simp]:
  "i < r \<Longrightarrow> j < c \<Longrightarrow> get2 (tabulate2 r c f) i j = f i j"
  by (simp add: get2_def tabulate2_def nth_concat_table)

lemma array2_eqI:
  assumes "shape a = [r, c]" "shape b = [r, c]" "wf_array a" "wf_array b"
    and "\<And>i j. i < r \<Longrightarrow> j < c \<Longrightarrow> get2 a i j = get2 b i j"
  shows "a = b"
proof -
  have la: "length (flat a) = r * c" and lb: "length (flat b) = r * c"
    using assms by (simp_all add: wf_array_def)
  have "flat a = flat b"
  proof (rule nth_equalityI)
    show "length (flat a) = length (flat b)" using la lb by simp
  next
    fix k assume k: "k < length (flat a)"
    with la have kc: "k < r * c" by simp
    then have c0: "0 < c" by (cases c) simp_all
    have i: "k div c < r" using kc by (simp add: less_mult_imp_div_less)
    have j: "k mod c < c" using c0 by simp
    have "get2 a (k div c) (k mod c) = get2 b (k div c) (k mod c)"
      using i j by (rule assms(5))
    then show "flat a ! k = flat b ! k"
      using assms(1,2) by (simp add: get2_def)
  qed
  with assms(1,2) show ?thesis by (simp add: ndarray.expand)
qed

lemma tabulate2_get2:
  assumes "shape a = [r, c]" "wf_array a"
  shows "tabulate2 r c (get2 a) = a"
  by (rule array2_eqI[where r = r and c = c]) (use assms in simp_all)

lemma shape_zeros2 [simp]: "shape (zeros2 r c) = [r, c]"
  by (simp add: zeros2_def)

lemma wf_zeros2 [simp]: "wf_array (zeros2 r c)"
  by (simp add: zeros2_def wf_array_def)

lemma get2_zeros2 [simp]: "i < r \<Longrightarrow> j < c \<Longrightarrow> get2 (zeros2 r c) i j = 0"
proof -
  assume a: "i < r" "j < c"
  then have "Suc i \<le> r" by simp
  then have "Suc i * c \<le> r * c" by (rule mult_le_mono1)
  with a have "i * c + j < r * c" by simp
  then show ?thesis by (simp add: get2_def zeros2_def)
qed

subsection \<open>Slices\<close>

lemma py_slice_nth:
  "py_slice i0 i1 xs = map ((!) xs) [i0..<min i1 (length xs)]"
proof (rule nth_equalityI)
  show "length (py_slice i0 i1 xs) = length (map ((!) xs) [i0..<min i1 (length xs)])"
    by (auto simp: py_slice_def)
next
  fix k assume "k < length (py_slice i0 i1 xs)"
  then have k: "k < length xs - i0" "k < i1 - i0"
    by (auto simp: py_slice_def)
  then have "i0 + k < min i1 (length xs)" by arith
  then have "[i0..<min i1 (length xs)] ! k = i0 + k"
    by (intro nth_upt)
  with k show "py_slice i0 i1 xs ! k = map ((!) xs) [i0..<min i1 (length xs)] ! k"
    by (simp add: py_slice_def)
qed

lemma rows_of_2d:
  assumes "shape a = [r, c]" "wf_array a"
  shows "rows_of a = map (\<lambda>i. map (get2 a i) [0..<c]) [0..<r]"
proof -
  have la: "length (flat a) = r * c" using assms by (simp add: wf_array_def)
  have "py_slice (i * c) (i * c + c) (flat a) = map (get2 a i) [0..<c]" if "i < r" for i
  proof -
    from that have "Suc i \<le> r" by simp
    then have "Suc i * c \<le> r * c" by (rule mult_le_mono1)
    then have le: "i * c + c \<le> length (flat a)" using la by simp
    show ?thesis
      by (rule nth_equalityI) (use le assms(1) in \<open>auto simp: py_slice_def get2_def\<close>)
  qed
  then show ?thesis using assms(1) by (simp add: rows_of_def)
qed

lemma slice2_ravel_2d:
  assumes "shape a = [r, c]" "wf_array a" "i1 \<le> r" "j1 \<le> c"
  shows "slice2_ravel a i0 i1 j0 j1 =
     Inr (concat (map (\<lambda>i. map (get2 a i) [j0..<j1]) [i0..<i1]))"
proof -
  have "map (py_slice j0 j1) (py_slice i0 i1 (rows_of a))
      = map (\<lambda>i. map (get2 a i) [j0..<j1]) [i0..<i1]"
    using assms by (simp add: rows_of_2d py_slice_nth min_def)
  then show ?thesis using assms(1) by (simp add: slice2_ravel_def ndim_def)
qed



subsection \<open>Layout\<close>

lemma size_pairwise_loop_sum:
  assumes "shape (a_n_edge_features m) = [T, T]" "length (l_n_states m) = T"
    and "\<forall>(t1, t2) \<in> set ps. t1 < T \<and> t2 < T"
  shows "size_pairwise_loop m ps acc =
     Inr (acc + sum_list (map (\<lambda>(t1, t2). get2 (a_n_edge_features m) t1 t2
                                  * l_n_states m ! t1 * l_n_states m ! t2) ps))"
  using assms
  by (induction ps arbitrary: acc) (auto simp: item2_def list_at_def ndim_def)

lemma sum_list_pairs:
  "sum_list (map (\<lambda>(t1, t2). f t1 t2) (concat (map (\<lambda>t1. map (\<lambda>t2. (t1, t2)) [0..<n]) [0..<k])))
   = (\<Sum>t1<k. \<Sum>t2<n. (f t1 t2 :: nat))"
  by (induction k) (simp_all add: comp_def interv_sum_list_conv_sum_set_nat atLeast0LessThan)

lemma sum_list_zip_mult:
  "length xs = length ys \<Longrightarrow>
   sum_list (map (\<lambda>(a, b). a * b) (zip xs ys)) = (\<Sum>t<length xs. xs ! t * (ys ! t :: nat))"
  by (simp add: sum_list_sum_nth atLeast0LessThan)

lemma set_iter_type_pairs:
  "set (iter_type_pairs m) = {..<n_types m} \<times> {..<n_types m}"
  by (auto simp: iter_type_pairs_def)

lemma set_size_joint_feature_layout:
  assumes "layout_ok m"
  shows "set_size_joint_feature m =
     Inr (m\<lparr>size_unaries := Some (unary_size m),
            size_pairwise := Some (pairwise_size m),
            size_joint_feature := Some (unary_size m + pairwise_size m)\<rparr>)"
proof -
  from assms have T: "0 < n_types m" "length (l_n_states m) = n_types m"
      "length (l_n_features m) = n_types m"
      "shape (a_n_edge_features m) = [n_types m, n_types m]"
    by (simp_all add: layout_ok_def)
  have ne: "l_n_features m \<noteq> []" using T by auto
  have u: "sum_list (map (\<lambda>(a, b). a * b) (zip (l_n_states m) (l_n_features m)))
      = unary_size m"
    using sum_list_zip_mult[of "l_n_states m" "l_n_features m"] T by (simp add: unary_size_def)
  have p: "size_pairwise_loop m (iter_type_pairs m) 0 = Inr (pairwise_size m)"
    using size_pairwise_loop_sum[OF T(4) T(2), of "iter_type_pairs m" 0]
    by (simp add: set_iter_type_pairs) (simp add: iter_type_pairs_def sum_list_pairs pairwise_size_def)
  show ?thesis
    by (simp add: set_size_joint_feature_def ne u p Let_def)
qed






subsection \<open>Block ravel\<close>

lemma zip_tl_nth:
  "zip xs (tl xs) = map (\<lambda>k. (xs ! k, xs ! Suc k)) [0..<length xs - 1]"
  by (rule nth_equalityI) (auto simp: nth_tl)

lemma ravel_blocks_2d:
  assumes "shape a = [r, c]" "wf_array a"
    and "\<forall>((i0, i1), (j0, j1)) \<in> set bs. i1 \<le> r \<and> j1 \<le> c"
  shows "ravel_blocks a bs =
     Inr (map (\<lambda>((i0, i1), (j0, j1)). concat (map (\<lambda>i. map (get2 a i) [j0..<j1]) [i0..<i1])) bs)"
  using assms(3)
  by (induction bs) (auto simp: slice2_ravel_2d[OF assms(1,2)])

lemma block_ravel_2d:
  assumes "shape a = [r, c]" "wf_array a" "2 \<le> length lij"
    and "\<forall>(i, j) \<in> set lij. i \<le> r \<and> j \<le> c"
  shows "block_ravel a lij = Inr (diagonal_blocks a lij)"
proof -
  let ?n = "length lij - 1"
  let ?bs = "zip (zip (map fst lij) (tl (map fst lij))) (zip (map snd lij) (tl (map snd lij)))"
  have bs: "?bs = map (\<lambda>k. ((fst (lij ! k), fst (lij ! Suc k)), (snd (lij ! k), snd (lij ! Suc k))))
       [0..<?n]"
    by (rule nth_equalityI) (auto simp: zip_tl_nth)
  have ne: "lij \<noteq> []" using assms(3) by auto
  have in_range: "\<forall>((i0, i1), (j0, j1)) \<in> set ?bs. i1 \<le> r \<and> j1 \<le> c"
  proof -
    have "fst (lij ! Suc k) \<le> r \<and> snd (lij ! Suc k) \<le> c" if "k < ?n" for k
    proof -
      from that have "lij ! Suc k \<in> set lij" by (intro nth_mem) simp
      with assms(4) show ?thesis by (auto simp: case_prod_beta)
    qed
    then show ?thesis unfolding bs by auto
  qed
  have nonempty: "?bs \<noteq> []"
    using assms(3) unfolding bs by simp
  have "ravel_blocks a ?bs =
     Inr (map (\<lambda>((i0, i1), (j0, j1)). concat (map (\<lambda>i. map (get2 a i) [j0..<j1]) [i0..<i1])) ?bs)"
    using ravel_blocks_2d[OF assms(1,2) in_range] .
  moreover have "concat (map (\<lambda>((i0, i1), (j0, j1)). concat (map (\<lambda>i. map (get2 a i) [j0..<j1]) [i0..<i1])) ?bs)
      = diagonal_blocks a lij"
    unfolding bs by (simp add: diagonal_blocks_def comp_def)
  ultimately show ?thesis
    using ne nonempty by (simp add: block_ravel_def Let_def hstack_def)
qed

text \<open>
  Claim C3, amended. For a 2-dimensional matrix and at least two cut-point pairs (at
  least one block) that lie within the matrix, \<^verbatim>\<open>block_ravel\<close> returns the concatenation,
  in block order, of the row-major flattenings of the diagonal sub-matrices: row-block k
  with column-block k, and nothing else.
\<close>

theorem block_ravel_diagonal_blocks:
  assumes "shape a = [r, c]" "wf_array a" "2 \<le> length lij"
    and "\<forall>(i, j) \<in> set lij. i \<le> r \<and> j \<le> c"
  shows "block_ravel a lij = Inr (diagonal_blocks a lij)"
  using assms by (rule block_ravel_2d)

theorem block_ravel_diagonal_blocks_witness:
  "shape example_matrix = [3, 4] \<and> wf_array example_matrix \<and> 2 \<le> length example_cuts
   \<and> list_all (\<lambda>(i, j). i \<le> 3 \<and> j \<le> 4) example_cuts
   \<and> block_ravel example_matrix example_cuts = Inr (diagonal_blocks example_matrix example_cuts)
   \<and> diagonal_blocks example_matrix example_cuts = [0, 1, 12, 13, 22, 23]"
proof -
  have h1: "shape example_matrix = [3, 4]" by (simp add: example_matrix_def)
  have h2: "wf_array example_matrix" by (simp add: example_matrix_def wf_array_def)
  have h3: "2 \<le> length example_cuts" by (simp add: example_cuts_def)
  have h4: "\<forall>(i, j) \<in> set example_cuts. i \<le> 3 \<and> j \<le> 4" by (simp add: example_cuts_def)
  have v: "diagonal_blocks example_matrix example_cuts = [0, 1, 12, 13, 22, 23]"
    by code_simp
  have h4': "list_all (\<lambda>(i, j). i \<le> 3 \<and> j \<le> 4) example_cuts"
    by (simp add: example_cuts_def)
  note block_ravel_diagonal_blocks[OF h1 h2 h3 h4]
  with h1 h2 h3 h4' v show ?thesis by (intro conjI)
qed

text \<open>
  A single cut-point pair describes no block. The claim gives the empty vector, the
  code hands \<^verbatim>\<open>np.hstack\<close> an empty list, which raises.
\<close>

theorem block_ravel_no_block:
  "block_ravel example_matrix [(0, 0)] = Inl ValueError
   \<and> diagonal_blocks example_matrix [(0, 0)] = []"
  by (simp add: block_ravel_def hstack_def diagonal_blocks_def)


subsection \<open>Instance validation\<close>

lemma check_edge_pairs_ok:
  "check_edge_pairs ps = Inr () \<longleftrightarrow> (\<forall>(e, f) \<in> set ps. edge_pair_ok e f)"
proof (induction ps rule: check_edge_pairs.induct)
  case (5 es ef ps)
  then show ?case
    by (cases "shape ef") (auto simp: edge_pair_ok_def py_len_def ndim_def)
qed (simp_all add: edge_pair_ok_def)



lemma iter_type_pairs_length [simp]: "length (iter_type_pairs m) = n_types m * n_types m"
  by (simp add: iter_type_pairs_def length_concat_table)

lemma iter_type_pairs_nth:
  assumes "t1 < n_types m" "t2 < n_types m"
  shows "iter_type_pairs m ! (t1 * n_types m + t2) = (t1, t2)"
  using nth_concat_table[OF assms, of "\<lambda>t1 t2. (t1, t2)"]
  by (simp add: iter_type_pairs_def)

lemma iter_type_pairs_nth_div:
  assumes "k < n_types m * n_types m"
  shows "iter_type_pairs m ! k = (k div n_types m, k mod n_types m)"
proof -
  from assms have T: "0 < n_types m" by (cases "n_types m") simp_all
  have "k div n_types m < n_types m" using assms by (simp add: less_mult_imp_div_less)
  moreover have "k mod n_types m < n_types m" using T by simp
  ultimately show ?thesis
    using iter_type_pairs_nth[of "k div n_types m" m "k mod n_types m"] by simp
qed

lemma check_edge_feature_sizes_ok:
  assumes "shape (a_n_edge_features m) = [T, T]" "n_types m = T" "length (edge_features x) = T * T"
    and "\<forall>(t1, t2) \<in> set ps. t1 < T \<and> t2 < T"
  shows "check_edge_feature_sizes m x ps = Inr ()
         \<longleftrightarrow> (\<forall>(t1, t2) \<in> set ps. edge_feature_columns_ok m x t1 t2)"
  using assms(4)
proof (induction ps)
  case Nil
  then show ?case by simp
next
  case (Cons pr ps)
  obtain t1 t2 where pr: "pr = (t1, t2)" by (cases pr)
  with Cons.prems have lt: "t1 < T" "t2 < T" by auto
  then have "Suc t1 \<le> T" by simp
  then have "Suc t1 * T \<le> T * T" by (rule mult_le_mono1)
  with lt have idx: "t1 * T + t2 < T * T" by simp
  show ?case
    using Cons lt idx assms(1-3)
    by (auto simp: pr get_edge_features_by_type_def list_at_def edge_feature_columns_ok_def
          item2_def ndim_def shape_at_def split: option.splits)
qed




lemma check_size_x_Inr:
  "check_size_x m x = Inr () \<longleftrightarrow>
     length (edges x) = (n_types m)\<^sup>2 \<and> length (edge_features x) = (n_types m)\<^sup>2
     \<and> base_check_size_x m x = Inr ()
     \<and> check_edge_pairs (zip (edges x) (edge_features x)) = Inr ()
     \<and> check_edge_feature_sizes m x (iter_type_pairs m) = Inr ()"
  by (auto simp: check_size_x_def and_then_eq_Inr)







lemma power2_eq_mult: "(n::nat)\<^sup>2 = n * n"
  by (simp add: power2_eq_square)

lemma check_edge_feature_sizes_all:
  assumes "layout_ok m" "length (edge_features x) = (n_types m)\<^sup>2"
  shows "check_edge_feature_sizes m x (iter_type_pairs m) = Inr ()
     \<longleftrightarrow> (\<forall>a<n_types m. \<forall>b<n_types m. edge_feature_columns_ok m x a b)"
proof -
  have sh: "shape (a_n_edge_features m) = [n_types m, n_types m]"
    using assms(1) by (simp add: layout_ok_def)
  have len: "length (edge_features x) = n_types m * n_types m"
    using assms(2) by (simp add: power2_eq_square)
  have "\<forall>(t1, t2) \<in> set (iter_type_pairs m). t1 < n_types m \<and> t2 < n_types m"
    by (auto simp: set_iter_type_pairs)
  then have "check_edge_feature_sizes m x (iter_type_pairs m) = Inr ()
     \<longleftrightarrow> (\<forall>(t1, t2) \<in> set (iter_type_pairs m). edge_feature_columns_ok m x t1 t2)"
    by (rule check_edge_feature_sizes_ok[OF sh refl len])
  then show ?thesis by (auto simp: set_iter_type_pairs)
qed






lemma get_pairwise_potentials_raises:
  "\<exists>e. get_pairwise_potentials attrs np_dot m x w = Inl e"
  unfolding get_pairwise_potentials_def and_then_def Let_def
  by (auto split: sum.splits)

lemma get_pairwise_potentials_weights_first:
  assumes "size_joint_feature m = Some n" "shape w \<noteq> [n]"
  shows "get_pairwise_potentials attrs np_dot m x w = Inl BadWeightSize"
  using assms by (simp add: get_pairwise_potentials_def check_size_w_def)

lemma stack_node_features_None:
  assumes "(c, None) \<in> set zs"
  shows "\<exists>e. stack_node_features zs i a = Inl e"
  using assms
proof (induction zs i a rule: stack_node_features.induct)
  case (3 c0 c1 nf rest i_start a)
  then have mem: "(c, None) \<in> set rest" by auto
  show ?case
  proof (cases "shape_at nf 0")
    case (Inl e)
    then show ?thesis by simp
  next
    case (Inr n)
    show ?thesis
    proof (cases "assign_block a i_start (i_start + n) c0 c1 nf")
      case (Inl e)
      then show ?thesis using Inr by simp
    next
      case (Inr a')
      with \<open>shape_at nf 0 = Inr n\<close> "3.IH"[OF refl mem] show ?thesis by simp
    qed
  qed
qed simp_all

lemma base_check_blocks_length:
  "base_check_blocks ns bs = Inr () \<Longrightarrow> length bs = length ns"
  by (induction ns bs rule: base_check_blocks.induct) (auto split: if_splits)

lemma joint_feature_Inr_stack:
  assumes "joint_feature m x y = Inr v"
  shows "check_size_x m x = Inr ()
    \<and> (\<exists>a r. stack_node_features (zip (a_feature_slice_by_typ m) (node_features x)) 0 a = Inr r)"
  using assms
  unfolding joint_feature_def assemble_joint_feature_def Let_def
  by (auto simp: and_then_eq_Inr split: prod.splits if_splits)

lemma joint_feature_absent_node_block:
  assumes "None \<in> set (node_features x)"
  shows "\<exists>e. joint_feature m x y = Inl e"
proof (cases "joint_feature m x y")
  case (Inl e)
  then show ?thesis by blast
next
  case (Inr v)
  from joint_feature_Inr_stack[OF Inr] obtain a r where
    cx: "check_size_x m x = Inr ()" and
    st: "stack_node_features (zip (a_feature_slice_by_typ m) (node_features x)) 0 a = Inr r"
    by blast
  from cx have "length (node_features x) = n_types m"
    by (auto simp: check_size_x_Inr base_check_size_x_def split: if_splits)
  then have len: "length (a_feature_slice_by_typ m) = length (node_features x)"
    by (simp add: a_feature_slice_by_typ_def)
  from assms obtain k where k: "k < length (node_features x)" "node_features x ! k = None"
    by (auto simp: in_set_conv_nth)
  then have "(a_feature_slice_by_typ m ! k, None)
      \<in> set (zip (a_feature_slice_by_typ m) (node_features x))"
    using len by (auto simp: in_set_zip)
  from stack_node_features_None[OF this, of 0 a] st show ?thesis by simp
qed




lemma layout_ok_encoder: "layout_ok encoder_model"
  by (simp add: layout_ok_def encoder_model_def example_model_def wf_array_def)





text \<open>
  Claim C6. When the length of the weight vector differs from the total size,
  \<^verbatim>\<open>_get_pairwise_potentials\<close> fails with the error of the weight check, whatever the
  instance is: the weight check comes before the instance check, the slicing, the
  reshaping and the products.
\<close>

theorem pairwise_potentials_checks_weights_first:
  assumes "size_joint_feature m = Some n" "shape w \<noteq> [n]"
  shows "get_pairwise_potentials attrs np_dot m x w = Inl BadWeightSize"
  using assms by (rule get_pairwise_potentials_weights_first)

theorem pairwise_potentials_checks_weights_first_witness:
  "size_joint_feature encoder_model = Some 40 \<and> shape short_weights \<noteq> [40]
   \<and> check_size_x encoder_model instance_bad_columns = Inl (BadNumberOfEdgeFeatures 1 0)
   \<and> get_pairwise_potentials example_attrs dot_returns encoder_model instance_bad_columns
        short_weights = Inl BadWeightSize"
proof -
  have s: "size_joint_feature encoder_model = Some 40"
    by (simp add: encoder_model_def)
  have w: "shape short_weights \<noteq> [40]"
    by (simp add: short_weights_def)
  have x: "check_size_x encoder_model instance_bad_columns = Inl (BadNumberOfEdgeFeatures 1 0)"
    by code_simp
  note pairwise_potentials_checks_weights_first[OF s w, of example_attrs dot_returns instance_bad_columns]
  with s w x show ?thesis by (intro conjI)
qed

text \<open>
  Claim C5, as the code behaves: \<^verbatim>\<open>_get_pairwise_potentials\<close> never returns potentials.
  Whatever the attributes it reads hold and whatever \<^verbatim>\<open>np.dot\<close> makes of the list of
  blocks, it raises; for a valid instance and a weight vector of the right length it
  raises the AttributeError of \<^verbatim>\<open>edge_features.shape\<close> on a list.
\<close>

theorem pairwise_potentials_never_returns:
  "(\<exists>e. get_pairwise_potentials attrs np_dot m x w = Inl e)
   \<and> check_size_w encoder_model example_weights = Inr ()
   \<and> check_size_x encoder_model example_instance = Inr ()
   \<and> get_pairwise_potentials example_attrs dot_returns encoder_model example_instance
        example_weights = Inl AttributeError"
proof (intro conjI)
  show "\<exists>e. get_pairwise_potentials attrs np_dot m x w = Inl e"
    by (rule get_pairwise_potentials_raises)
  show "check_size_w encoder_model example_weights = Inr ()"
    by (simp add: check_size_w_def encoder_model_def example_weights_def)
  show "check_size_x encoder_model example_instance = Inr ()"
    by code_simp
  show "get_pairwise_potentials example_attrs dot_returns encoder_model example_instance
        example_weights = Inl AttributeError"
    by code_simp
qed

text \<open>
  Claim C10. When some node-feature block of the instance is absent, \<^verbatim>\<open>joint_feature\<close>
  with a discrete labeling raises, also when the instance passes validation: the
  stacking loop reads the shape of every block.
\<close>

theorem joint_feature_absent_node_block_raises:
  assumes "None \<in> set (node_features x)"
  shows "\<exists>e. joint_feature m x (Discrete y) = Inl e"
  using assms by (rule joint_feature_absent_node_block)

theorem joint_feature_absent_node_block_raises_witness:
  "node_features instance_without_nodes ! 1 = None
   \<and> check_size_x encoder_model instance_without_nodes = Inr ()
   \<and> check_size_y encoder_model instance_without_nodes (Discrete [[0, 1], []]) = Inr ()
   \<and> (\<exists>e. joint_feature encoder_model instance_without_nodes (Discrete [[0, 1], []]) = Inl e)
   \<and> joint_feature encoder_model instance_without_nodes (Discrete [[0, 1], []]) = Inl AttributeError"
proof -
  have n: "node_features instance_without_nodes ! 1 = None"
    by (simp add: instance_without_nodes_def)
  have mem: "None \<in> set (node_features instance_without_nodes)"
    by (simp add: instance_without_nodes_def)
  have cx: "check_size_x encoder_model instance_without_nodes = Inr ()"
    by code_simp
  have cy: "check_size_y encoder_model instance_without_nodes (Discrete [[0, 1], []]) = Inr ()"
    by code_simp
  have v: "joint_feature encoder_model instance_without_nodes (Discrete [[0, 1], []])
      = Inl AttributeError"
    by code_simp
  note joint_feature_absent_node_block_raises[OF mem, of encoder_model "[[0, 1], []]"]
  with n cx cy v show ?thesis by (intro conjI)
qed



subsection \<open>Index arithmetic\<close>

lemma flat_index_less:
  assumes "i < r" "j < c"
  shows "i * c + j < r * (c::nat)"
proof -
  from assms have "Suc i \<le> r" by simp
  then have "Suc i * c \<le> r * c" by (rule mult_le_mono1)
  with assms show ?thesis by simp
qed

lemma flat_index_inj:
  assumes "j < c" "j' < c" "i * c + j = i' * c + (j'::nat)"
  shows "i = i' \<and> j = j'"
proof -
  have "(i * c + j) div c = i" "(i * c + j) mod c = j" using assms(1) by simp_all
  moreover have "(i' * c + j') div c = i'" "(i' * c + j') mod c = j'" using assms(2) by simp_all
  ultimately show ?thesis using assms(3) by metis
qed

subsection \<open>Assignment through index arrays\<close>

lemma length_fold_update [simp]:
  "length (fold (\<lambda>(i, j) fl. fl[i * c + j := v]) idx fl) = length fl"
  by (induction idx arbitrary: fl) (auto simp: case_prod_beta)

lemma fold_update_nth:
  assumes "\<forall>(i, j) \<in> set idx. i < r \<and> j < c" "i < r" "j < c" "length fl = r * c"
  shows "fold (\<lambda>(i, j) fl. fl[i * c + j := v]) idx fl ! (i * c + j)
         = (if (i, j) \<in> set idx then v else fl ! (i * c + j))"
  using assms(1,4)
proof (induction idx arbitrary: fl)
  case Nil
  then show ?case by simp
next
  case (Cons x idx)
  obtain i0 j0 where x: "x = (i0, j0)" by (cases x)
  with Cons.prems have in0: "i0 < r" "j0 < c" by auto
  have lt: "i * c + j < r * c" using assms(2,3) by (rule flat_index_less)
  have lt0: "i0 * c + j0 < r * c" using in0 by (rule flat_index_less)
  have same: "i0 * c + j0 = i * c + j \<longleftrightarrow> (i0, j0) = (i, j)"
    using flat_index_inj[OF in0(2) assms(3)] by auto
  have "fold (\<lambda>(i, j) fl. fl[i * c + j := v]) idx (fl[i0 * c + j0 := v]) ! (i * c + j)
      = (if (i, j) \<in> set idx then v else fl[i0 * c + j0 := v] ! (i * c + j))"
    using Cons.prems by (intro Cons.IH) auto
  also have "fl[i0 * c + j0 := v] ! (i * c + j) = (if (i0, j0) = (i, j) then v else fl ! (i * c + j))"
    using lt lt0 Cons.prems(2) same by (simp add: nth_list_update)
  finally show ?case using x by auto
qed

lemma norm_index_in_range:
  "0 \<le> i \<Longrightarrow> i < int n \<Longrightarrow> norm_index n i = Inr (nat i)"
  by (simp add: norm_index_def)

lemma norm_cells_in_range:
  assumes "\<forall>(i, j) \<in> set cells. 0 \<le> i \<and> i < int r \<and> 0 \<le> j \<and> j < int c"
  shows "norm_cells r c cells = Inr (map (\<lambda>(i, j). (nat i, nat j)) cells)"
  using assms by (induction cells) (auto simp: norm_index_in_range)

lemma fancy_assign2_get:
  assumes sh: "shape a = [r, c]" and wf: "wf_array a"
    and len: "length rows = length cols"
    and rows: "\<forall>i \<in> set rows. 0 \<le> i \<and> i < int r"
    and cols: "\<forall>j \<in> set cols. 0 \<le> j \<and> j < int c"
  shows "\<exists>a'. fancy_assign2 a rows cols v = Inr a' \<and> shape a' = [r, c] \<and> wf_array a'
     \<and> (\<forall>i<r. \<forall>j<c. get2 a' i j
            = (if (int i, int j) \<in> set (zip rows cols) then v else get2 a i j))"
proof -
  let ?cells = "zip rows cols"
  let ?idx = "map (\<lambda>(i, j). (nat i, nat j)) ?cells"
  let ?fl = "fold (\<lambda>(i, j) fl. fl[i * c + j := v]) ?idx (flat a)"
  have in_range: "\<forall>(i, j) \<in> set ?cells. 0 \<le> i \<and> i < int r \<and> 0 \<le> j \<and> j < int c"
    using rows cols by (auto dest: set_zip_leftD set_zip_rightD)
  have bp: "broadcast_pair rows cols = Inr ?cells"
    using len by (simp add: broadcast_pair_def)
  have nc: "norm_cells r c ?cells = Inr ?idx"
    using in_range by (rule norm_cells_in_range)
  have res: "fancy_assign2 a rows cols v = Inr (NdArray [r, c] ?fl)"
    using sh bp nc by (simp add: fancy_assign2_def ndim_def)
  have la: "length (flat a) = r * c" using sh wf by (simp add: wf_array_def)
  have idx_range: "\<forall>(i, j) \<in> set ?idx. i < r \<and> j < c"
    using in_range by auto
  have "get2 (NdArray [r, c] ?fl) i j
      = (if (int i, int j) \<in> set ?cells then v else get2 a i j)" if "i < r" "j < c" for i j
  proof -
    have mem: "(i, j) \<in> set ?idx \<longleftrightarrow> (int i, int j) \<in> set ?cells"
    proof
      assume "(i, j) \<in> set ?idx"
      then obtain i' j' where ij: "(i', j') \<in> set ?cells" "i = nat i'" "j = nat j'" by auto
      with in_range have "0 \<le> i'" "0 \<le> j'" by auto
      with ij show "(int i, int j) \<in> set ?cells" by simp
    next
      assume "(int i, int j) \<in> set ?cells"
      then have "(\<lambda>(i, j). (nat i, nat j)) (int i, int j)
          \<in> (\<lambda>(i, j). (nat i, nat j)) ` set ?cells"
        by (rule imageI)
      then show "(i, j) \<in> set ?idx" by simp
    qed
    show ?thesis
      using fold_update_nth[OF idx_range that la, of v] sh mem
      by (simp add: get2_def)
  qed
  moreover have "wf_array (NdArray [r, c] ?fl)"
    using la by (simp add: wf_array_def)
  ultimately show ?thesis using res by simp
qed

lemma zip_ogrid_mem:
  assumes "length cols = i1 - i0"
  shows "(int i, j) \<in> set (zip (ogrid i0 i1) cols) \<longleftrightarrow> i0 \<le> i \<and> i < i1 \<and> cols ! (i - i0) = j"
proof -
  have "(int i, j) \<in> set (zip (ogrid i0 i1) cols)
      \<longleftrightarrow> (\<exists>k < i1 - i0. int i = int (i0 + k) \<and> j = cols ! k)"
  proof
    assume "(int i, j) \<in> set (zip (ogrid i0 i1) cols)"
    then obtain k where k: "k < length (ogrid i0 i1)" "k < length cols"
        "ogrid i0 i1 ! k = int i" "cols ! k = j"
      by (auto simp: in_set_zip)
    then have "k < i1 - i0" "int i = int (i0 + k)" "j = cols ! k"
      by (simp_all add: ogrid_def)
    then show "\<exists>k < i1 - i0. int i = int (i0 + k) \<and> j = cols ! k" by blast
  next
    assume "\<exists>k < i1 - i0. int i = int (i0 + k) \<and> j = cols ! k"
    then obtain k where k: "k < i1 - i0" "int i = int (i0 + k)" "j = cols ! k" by blast
    then have "ogrid i0 i1 ! k = int i" "cols ! k = j" "k < length (ogrid i0 i1)" "k < length cols"
      using assms by (simp_all add: ogrid_def)
    then show "(int i, j) \<in> set (zip (ogrid i0 i1) cols)"
      unfolding in_set_zip by (intro exI[of _ k]) simp
  qed
  also have "\<dots> \<longleftrightarrow> i0 \<le> i \<and> i < i1 \<and> cols ! (i - i0) = j"
  proof
    assume "\<exists>k < i1 - i0. int i = int (i0 + k) \<and> j = cols ! k"
    then obtain k where k: "k < i1 - i0" "int i = int (i0 + k)" "j = cols ! k" by blast
    from k(2) have "i = i0 + k" by linarith
    with k show "i0 \<le> i \<and> i < i1 \<and> cols ! (i - i0) = j" by auto
  next
    assume h: "i0 \<le> i \<and> i < i1 \<and> cols ! (i - i0) = j"
    then have "i - i0 < i1 - i0 \<and> int i = int (i0 + (i - i0)) \<and> j = cols ! (i - i0)" by auto
    then show "\<exists>k < i1 - i0. int i = int (i0 + k) \<and> j = cols ! k" by blast
  qed
  finally show ?thesis .
qed

lemma fancy_assign2_rows:
  assumes sh: "shape a = [r, c]" and wf: "wf_array a"
    and len: "length cols = n" and fit: "i0 + n \<le> r"
    and cols: "\<forall>j \<in> set cols. 0 \<le> j \<and> j < int c"
  shows "\<exists>a'. fancy_assign2 a (ogrid i0 (i0 + n)) cols v = Inr a' \<and> shape a' = [r, c]
     \<and> wf_array a'
     \<and> (\<forall>i<r. \<forall>j<c. get2 a' i j
            = (if i0 \<le> i \<and> i < i0 + n \<and> cols ! (i - i0) = int j then v else get2 a i j))"
proof -
  have l: "length (ogrid i0 (i0 + n)) = length cols" using len by (simp add: ogrid_def)
  have r: "\<forall>i \<in> set (ogrid i0 (i0 + n)). 0 \<le> i \<and> i < int r"
    using fit by (auto simp: ogrid_def)
  have l': "length cols = i0 + n - i0" using len by simp
  from fancy_assign2_get[OF sh wf l r cols, of v]
  show ?thesis by (simp add: zip_ogrid_mem[OF l'])
qed



subsection \<open>The one-hot loops\<close>

lemma onehot_step_combine:
  assumes "\<forall>i<N. \<forall>j<S. get2 a1 i j
        = (if i0 \<le> i \<and> i < i0 + length ct \<and> ct ! (i - i0) = int j then v else get2 a i j)"
    and "\<forall>i<N. \<forall>j<S. get2 a2 i j
        = (if i0 + length ct \<le> i \<and> i < i0 + length ct + length cr
              \<and> cr ! (i - (i0 + length ct)) = int j then v else get2 a1 i j)"
  shows "\<forall>i<N. \<forall>j<S. get2 a2 i j
        = (if i0 \<le> i \<and> i < i0 + length (ct @ cr) \<and> (ct @ cr) ! (i - i0) = int j
           then v else get2 a i j)"
proof (intro allI impI)
  fix i j assume ij: "i < N" "j < S"
  show "get2 a2 i j
        = (if i0 \<le> i \<and> i < i0 + length (ct @ cr) \<and> (ct @ cr) ! (i - i0) = int j
           then v else get2 a i j)"
  proof (cases "i0 + length ct \<le> i")
    case True
    then have "\<not> i - i0 < length ct" "i - i0 - length ct = i - (i0 + length ct)"
      by simp_all
    then have "(ct @ cr) ! (i - i0) = cr ! (i - (i0 + length ct))"
      by (simp only: nth_append if_False)
    moreover have "get2 a1 i j = get2 a i j" using assms(1) ij True by simp
    ultimately show ?thesis using assms(2) ij True by auto
  next
    case False
    have "(ct @ cr) ! (i - i0) = ct ! (i - i0)" if "i0 \<le> i"
    proof -
      from that False have "i - i0 < length ct" by linarith
      then show ?thesis by (simp only: nth_append if_True)
    qed
    then show ?thesis using assms ij False by auto
  qed
qed

lemma unary_onehot_loop_get:
  assumes sh: "shape um = [N, S]" and wf: "wf_array um"
    and blocks: "\<forall>(b, start, y_typ) \<in> set zs.
        (\<exists>nf. b = Some nf \<and> shape_at nf 0 = Inr (length y_typ))
        \<and> (\<forall>l \<in> set y_typ. 0 \<le> int start + l \<and> int start + l < int S)"
    and fit: "i_start + length (loop_node_columns zs) \<le> N"
  shows "\<exists>um'. unary_onehot_loop zs i_start um = Inr um' \<and> shape um' = [N, S] \<and> wf_array um'
     \<and> (\<forall>i<N. \<forall>j<S. get2 um' i j =
          (if i_start \<le> i \<and> i < i_start + length (loop_node_columns zs)
                \<and> loop_node_columns zs ! (i - i_start) = int j
           then 1 else get2 um i j))"
  using sh wf blocks fit
proof (induction zs arbitrary: i_start um)
  case Nil
  then show ?case by (auto simp: loop_node_columns_def)
next
  case (Cons z zs)
  obtain b start y_typ where z: "z = (b, start, y_typ)" by (cases z)
  from Cons.prems(3) z obtain nf where nf: "b = Some nf" "shape_at nf 0 = Inr (length y_typ)"
    and lab: "\<forall>l \<in> set y_typ. 0 \<le> int start + l \<and> int start + l < int S"
    by auto
  let ?n = "length y_typ"
  let ?ct = "map (\<lambda>l. int start + l) y_typ"
  let ?cr = "loop_node_columns zs"
  have cols: "loop_node_columns (z # zs) = ?ct @ ?cr"
    using z by (simp add: loop_node_columns_def)
  have fit1: "i_start + ?n \<le> N" and fit2: "(i_start + ?n) + length ?cr \<le> N"
    using Cons.prems(4) cols by simp_all
  have cols_ok: "\<forall>j \<in> set ?ct. 0 \<le> j \<and> j < int S" using lab by auto
  from fancy_assign2_rows[OF Cons.prems(1,2) _ fit1 cols_ok, of 1] obtain um1 where
    um1: "fancy_assign2 um (ogrid i_start (i_start + ?n)) ?ct 1 = Inr um1"
      "shape um1 = [N, S]" "wf_array um1"
      "\<forall>i<N. \<forall>j<S. get2 um1 i j
          = (if i_start \<le> i \<and> i < i_start + length ?ct \<and> ?ct ! (i - i_start) = int j
             then 1 else get2 um i j)"
    by auto
  have rest: "\<forall>(b, start, y_typ) \<in> set zs.
        (\<exists>nf. b = Some nf \<and> shape_at nf 0 = Inr (length y_typ))
        \<and> (\<forall>l \<in> set y_typ. 0 \<le> int start + l \<and> int start + l < int S)"
    using Cons.prems(3) by simp
  from Cons.IH[OF um1(2,3) rest fit2] obtain um' where
    um': "unary_onehot_loop zs (i_start + ?n) um1 = Inr um'" "shape um' = [N, S]" "wf_array um'"
      "\<forall>i<N. \<forall>j<S. get2 um' i j =
          (if i_start + length ?ct \<le> i \<and> i < i_start + length ?ct + length ?cr
                \<and> ?cr ! (i - (i_start + length ?ct)) = int j
           then 1 else get2 um1 i j)"
    by auto
  have run: "unary_onehot_loop (z # zs) i_start um = Inr um'"
    using z nf um1(1) um'(1) by (simp add: Let_def)
  from onehot_step_combine[OF um1(4) um'(4)] run um'(2,3) cols
  show ?case by simp
qed

lemma take_at_in_range:
  assumes "\<forall>i \<in> set idx. 0 \<le> i \<and> i < int (length ys)"
  shows "take_at ys idx = Inr (map (\<lambda>i. ys ! nat i) idx)"
  using assms by (induction idx) (auto simp: norm_index_in_range)

lemma zip_map_fst_snd:
  "zip (map f (map fst es)) (map g (map snd es)) = map (\<lambda>(a, b). (f a, g b)) es"
  by (induction es) auto

lemma pairwise_onehot_loop_get:
  assumes sh: "shape pw = [E, C]" and wf: "wf_array pw"
    and blocks: "\<forall>((t1, t2), eo, start) \<in> set zs.
        t1 < length y \<and> t2 < length y \<and> t2 < length (l_n_states m)
        \<and> (\<forall>es. eo = Some es \<longrightarrow>
              (\<forall>(a, b) \<in> set es.
                  0 \<le> a \<and> a < int (length (y ! t1)) \<and> 0 \<le> b \<and> b < int (length (y ! t2))
                  \<and> 0 \<le> int start + int (l_n_states m ! t2) * (y ! t1 ! nat a) + y ! t2 ! nat b
                  \<and> int start + int (l_n_states m ! t2) * (y ! t1 ! nat a) + y ! t2 ! nat b < int C))"
    and fit: "i_start + length (loop_edge_columns m y zs) \<le> E"
  shows "\<exists>pw'. pairwise_onehot_loop m y zs i_start pw
                = Inr (i_start + length (loop_edge_columns m y zs), pw')
     \<and> shape pw' = [E, C] \<and> wf_array pw'
     \<and> (\<forall>i<E. \<forall>j<C. get2 pw' i j =
          (if i_start \<le> i \<and> i < i_start + length (loop_edge_columns m y zs)
                \<and> loop_edge_columns m y zs ! (i - i_start) = int j
           then 1 else get2 pw i j))"
  using sh wf blocks fit
proof (induction zs arbitrary: i_start pw)
  case Nil
  then show ?case by (auto simp: loop_edge_columns_def)
next
  case (Cons z zs)
  obtain t1 t2 eo start where z: "z = ((t1, t2), eo, start)" by (cases z) auto
  have t: "t1 < length y" "t2 < length y" "t2 < length (l_n_states m)"
    using Cons.prems(3) z by auto
  have rest: "\<forall>((t1, t2), eo, start) \<in> set zs.
        t1 < length y \<and> t2 < length y \<and> t2 < length (l_n_states m)
        \<and> (\<forall>es. eo = Some es \<longrightarrow>
              (\<forall>(a, b) \<in> set es.
                  0 \<le> a \<and> a < int (length (y ! t1)) \<and> 0 \<le> b \<and> b < int (length (y ! t2))
                  \<and> 0 \<le> int start + int (l_n_states m ! t2) * (y ! t1 ! nat a) + y ! t2 ! nat b
                  \<and> int start + int (l_n_states m ! t2) * (y ! t1 ! nat a) + y ! t2 ! nat b < int C))"
    using Cons.prems(3) by simp
  show ?case
  proof (cases eo)
    case None
    then have cols: "loop_edge_columns m y (z # zs) = loop_edge_columns m y zs"
      using z by (simp add: loop_edge_columns_def)
    have fit': "i_start + length (loop_edge_columns m y zs) \<le> E"
      using Cons.prems(4) cols by simp
    from Cons.IH[OF Cons.prems(1,2) rest fit'] show ?thesis
      using z None cols by simp
  next
    case (Some es)
    let ?f = "\<lambda>(a, b). int start + int (l_n_states m ! t2) * (y ! t1 ! nat a) + y ! t2 ! nat b"
    let ?ct = "map ?f es"
    let ?cr = "loop_edge_columns m y zs"
    have cols: "loop_edge_columns m y (z # zs) = ?ct @ ?cr"
      using z Some by (simp add: loop_edge_columns_def)
    have es: "\<forall>(a, b) \<in> set es.
                  0 \<le> a \<and> a < int (length (y ! t1)) \<and> 0 \<le> b \<and> b < int (length (y ! t2))
                  \<and> 0 \<le> ?f (a, b) \<and> ?f (a, b) < int C"
      using Cons.prems(3) z Some by auto
    have y1: "take_at (y ! t1) (map fst es) = Inr (map (\<lambda>i. y ! t1 ! nat i) (map fst es))"
      using es by (intro take_at_in_range) auto
    have y2: "take_at (y ! t2) (map snd es) = Inr (map (\<lambda>i. y ! t2 ! nat i) (map snd es))"
      using es by (intro take_at_in_range) auto
    have colmap: "map (\<lambda>(l1, l2). int start + int (l_n_states m ! t2) * l1 + l2)
        (zip (map (\<lambda>i. y ! t1 ! nat i) (map fst es)) (map (\<lambda>i. y ! t2 ! nat i) (map snd es))) = ?ct"
      by (induction es) auto
    have fit1: "i_start + length es \<le> E"
      and fit2: "(i_start + length es) + length ?cr \<le> E"
      using Cons.prems(4) cols by simp_all
    have cols_ok: "\<forall>j \<in> set ?ct. 0 \<le> j \<and> j < int C" using es by auto
    have lct: "length ?ct = length es" by simp
    from fancy_assign2_rows[OF Cons.prems(1,2) lct fit1 cols_ok, of 1] obtain pw1 where
      pw1: "fancy_assign2 pw (ogrid i_start (i_start + length es)) ?ct 1 = Inr pw1"
        "shape pw1 = [E, C]" "wf_array pw1"
        "\<forall>i<E. \<forall>j<C. get2 pw1 i j
            = (if i_start \<le> i \<and> i < i_start + length ?ct \<and> ?ct ! (i - i_start) = int j
               then 1 else get2 pw i j)"
      by auto
    from Cons.IH[OF pw1(2,3) rest fit2] obtain pw' where
      pw': "pairwise_onehot_loop m y zs (i_start + length es) pw1
              = Inr (i_start + length es + length ?cr, pw')"
        "shape pw' = [E, C]" "wf_array pw'"
        "\<forall>i<E. \<forall>j<C. get2 pw' i j =
            (if i_start + length ?ct \<le> i \<and> i < i_start + length ?ct + length ?cr
                  \<and> ?cr ! (i - (i_start + length ?ct)) = int j
             then 1 else get2 pw1 i j)"
      by auto
    have "pairwise_onehot_loop m y (z # zs) i_start pw
        = Inr (i_start + length es + length ?cr, pw')"
      by (simp only: z Some pairwise_onehot_loop.simps list_at_def t if_True and_then_Inr
            y1 y2 Let_def colmap pw1(1) pw'(1))
    then have run: "pairwise_onehot_loop m y (z # zs) i_start pw
        = Inr (i_start + length (?ct @ ?cr), pw')"
      by (simp add: add.assoc)
    from onehot_step_combine[OF pw1(4) pw'(4)] run pw'(2,3) cols
    show ?thesis by simp
  qed
qed



subsection \<open>Offsets of the layout\<close>

lemma sum_list_take_Suc:
  "t < length xs \<Longrightarrow> sum_list (take (Suc t) xs) = sum_list (take t xs) + (xs ! t :: nat)"
  by (simp add: take_Suc_conv_app_nth)

lemma sum_list_take_le:
  "sum_list (take k xs) \<le> sum_list (xs :: nat list)"
proof -
  have "sum_list xs = sum_list (take k xs) + sum_list (drop k xs)"
    by (metis append_take_drop_id sum_list_append)
  then show ?thesis by simp
qed

lemma offset_plus_size_le:
  assumes "t < length xs"
  shows "sum_list (take t xs) + xs ! t \<le> sum_list (xs :: nat list)"
  using sum_list_take_Suc[OF assms] sum_list_take_le[of "Suc t" xs] by simp

lemma length_state_products [simp]: "length (state_products m) = n_types m * n_types m"
  by (simp add: state_products_def)

lemma state_products_nth:
  assumes "t1 < n_types m" "t2 < n_types m"
  shows "state_products m ! (t1 * n_types m + t2) = l_n_states m ! t1 * l_n_states m ! t2"
  using assms flat_index_less[OF assms]
  by (simp add: state_products_def iter_type_pairs_nth)

lemma sum_list_state_products:
  assumes "length (l_n_states m) = n_types m"
  shows "sum_list (state_products m) = (n_states_total m)\<^sup>2"
proof -
  have "sum_list (state_products m)
      = (\<Sum>t1<n_types m. \<Sum>t2<n_types m. l_n_states m ! t1 * l_n_states m ! t2)"
    by (simp add: state_products_def iter_type_pairs_def sum_list_pairs)
  also have "\<dots> = (\<Sum>t1<n_types m. l_n_states m ! t1) * (\<Sum>t2<n_types m. l_n_states m ! t2)"
    by (simp add: sum_product)
  also have "(\<Sum>t<n_types m. l_n_states m ! t) = n_states_total m"
    using assms by (simp add: n_states_total_def sum_list_sum_nth atLeast0LessThan)
  finally show ?thesis by (simp add: power2_eq_square)
qed

lemma state_products_of_ok:
  assumes "length (l_n_states m) = n_types m"
  shows "state_products_of m = Inr (state_products m)"
proof -
  have "map_err (\<lambda>(typ1, typ2).
        and_then (list_at (l_n_states m) typ1) (\<lambda>s1.
        and_then (list_at (l_n_states m) typ2) (\<lambda>s2. Inr (s1 * s2)))) ps
      = Inr (map (\<lambda>(typ1, typ2). l_n_states m ! typ1 * l_n_states m ! typ2) ps)"
    if "\<forall>(t1, t2) \<in> set ps. t1 < n_types m \<and> t2 < n_types m" for ps
    using that assms by (induction ps) (auto simp: list_at_def)
  then show ?thesis
    by (simp add: state_products_of_def state_products_def set_iter_type_pairs)
qed

lemma type_column_in_range:
  assumes "length (l_n_states m) = n_types m" "t < n_types m" "0 \<le> l" "l < int (l_n_states m ! t)"
  shows "0 \<le> int (l_type_startindex m ! t) + l"
    and "int (l_type_startindex m ! t) + l < int (n_states_total m)"
proof -
  have "sum_list (take t (l_n_states m)) + l_n_states m ! t \<le> n_states_total m"
    unfolding n_states_total_def using assms(1,2) by (intro offset_plus_size_le) simp
  then show "int (l_type_startindex m ! t) + l < int (n_states_total m)"
    using assms by (simp add: l_type_startindex_def)
  show "0 \<le> int (l_type_startindex m ! t) + l" using assms by simp
qed

lemma pair_column_in_range:
  assumes len: "length (l_n_states m) = n_types m" and t: "t1 < n_types m" "t2 < n_types m"
    and l1: "0 \<le> l1" "l1 < int (l_n_states m ! t1)"
    and l2: "0 \<le> l2" "l2 < int (l_n_states m ! t2)"
  shows "0 \<le> int (l_edgetype_start_index m ! (t1 * n_types m + t2)) + int (l_n_states m ! t2) * l1 + l2"
    and "int (l_edgetype_start_index m ! (t1 * n_types m + t2)) + int (l_n_states m ! t2) * l1 + l2
          < int ((n_states_total m)\<^sup>2)"
proof -
  let ?q = "t1 * n_types m + t2"
  let ?s1 = "l_n_states m ! t1" and ?s2 = "l_n_states m ! t2"
  have q: "?q < n_types m * n_types m" using t by (rule flat_index_less)
  have "sum_list (take ?q (state_products m)) + state_products m ! ?q \<le> sum_list (state_products m)"
    using q by (intro offset_plus_size_le) simp
  then have le: "l_edgetype_start_index m ! ?q + ?s1 * ?s2 \<le> (n_states_total m)\<^sup>2"
    using q t by (simp add: l_edgetype_start_index_def state_products_nth sum_list_state_products[OF len])
  have "nat l1 * ?s2 + nat l2 < ?s1 * ?s2"
    using l1 l2 by (intro flat_index_less) simp_all
  then have "int (nat l1 * ?s2 + nat l2) < int (?s1 * ?s2)" by (simp only: of_nat_less_iff)
  then have "int ?s2 * l1 + l2 < int (?s1 * ?s2)"
    using l1 l2 by (simp add: mult.commute)
  with le show "int (l_edgetype_start_index m ! ?q) + int ?s2 * l1 + l2 < int ((n_states_total m)\<^sup>2)"
    by linarith
  show "0 \<le> int (l_edgetype_start_index m ! ?q) + int ?s2 * l1 + l2"
    using l1 l2 by simp
qed



subsection \<open>What a valid instance and a valid labeling give\<close>

lemma valid_instance_lengths:
  assumes "valid_instance m x"
  shows "length (node_features x) = n_types m"
    and "length (edges x) = n_types m * n_types m"
    and "length (edge_features x) = n_types m * n_types m"
  using assms by (simp_all add: valid_instance_def power2_eq_square)

lemma valid_instance_node:
  assumes "valid_instance m x" "t < n_types m"
  obtains a where "node_features x ! t = Some a" "ndim a = 2"
    "shape a = [n_nodes_of_type x t, l_n_features m ! t]" "wf_array a"
proof -
  from assms have "case node_features x ! t of
      None \<Rightarrow> False
    | Some a \<Rightarrow> ndim a = 2 \<and> shape a ! 1 = l_n_features m ! t \<and> wf_array a"
    by (simp add: valid_instance_def)
  then obtain a where a: "node_features x ! t = Some a" "ndim a = 2"
      "shape a ! 1 = l_n_features m ! t" "wf_array a"
    by (auto split: option.splits)
  from a(2) obtain r c where "shape a = [r, c]"
    by (cases "shape a"; cases "tl (shape a)"; cases "tl (tl (shape a))") (auto simp: ndim_def)
  with a have "shape a = [n_nodes_of_type x t, l_n_features m ! t]"
    by (simp add: n_nodes_of_type_def)
  with a that show thesis by blast
qed

lemma valid_instance_pair:
  assumes "valid_instance m x" "t1 < n_types m" "t2 < n_types m"
  shows "(edges x ! (t1 * n_types m + t2) = None \<and> edge_features x ! (t1 * n_types m + t2) = None)
    \<or> (\<exists>es f. edges x ! (t1 * n_types m + t2) = Some es
          \<and> edge_features x ! (t1 * n_types m + t2) = Some f
          \<and> shape f = [length es, get2 (a_n_edge_features m) t1 t2] \<and> wf_array f
          \<and> (\<forall>(a, b) \<in> set es. 0 \<le> a \<and> a < int (n_nodes_of_type x t1)
                \<and> 0 \<le> b \<and> b < int (n_nodes_of_type x t2)))"
proof -
  from assms have "case (edges x ! (t1 * n_types m + t2), edge_features x ! (t1 * n_types m + t2)) of
             (None, None) \<Rightarrow> True
           | (Some es, Some f) \<Rightarrow>
               shape f = [length es, get2 (a_n_edge_features m) t1 t2] \<and> wf_array f
               \<and> (\<forall>(a, b) \<in> set es.
                     0 \<le> a \<and> a < int (n_nodes_of_type x t1)
                     \<and> 0 \<le> b \<and> b < int (n_nodes_of_type x t2))
           | _ \<Rightarrow> False"
    by (simp add: valid_instance_def)
  then show ?thesis by (auto split: option.splits)
qed

lemma pair_index_split:
  assumes "q < T * T"
  shows "q div T < T" "q mod T < T" "q div T * T + q mod T = (q::nat)"
proof -
  from assms have T: "0 < T" by (cases T) simp_all
  show "q div T < T" using assms by (simp add: less_mult_imp_div_less)
  show "q mod T < T" using T by simp
  show "q div T * T + q mod T = q" by simp
qed

lemma base_check_blocks_ok:
  assumes "length bs = length ns"
    and "\<forall>t<length ns. \<exists>a. bs ! t = Some a \<and> ndim a = 2 \<and> shape a ! 1 = ns ! t"
  shows "base_check_blocks ns bs = Inr ()"
  using assms
proof (induction ns bs rule: list_induct2')
  case (4 n ns b bs)
  from 4(3) have "\<exists>a. (b # bs) ! 0 = Some a \<and> ndim a = 2 \<and> shape a ! 1 = (n # ns) ! 0"
    by blast
  then obtain a where a: "b = Some a" "ndim a = 2" "shape a ! 1 = n" by auto
  have "\<forall>t<length ns. \<exists>a. bs ! t = Some a \<and> ndim a = 2 \<and> shape a ! 1 = ns ! t"
  proof (intro allI impI)
    fix t assume "t < length ns"
    then have "Suc t < length (n # ns)" by simp
    with 4(3) have "\<exists>a. (b # bs) ! Suc t = Some a \<and> ndim a = 2 \<and> shape a ! 1 = (n # ns) ! Suc t"
      by blast
    then show "\<exists>a. bs ! t = Some a \<and> ndim a = 2 \<and> shape a ! 1 = ns ! t" by simp
  qed
  with 4 a show ?case by simp
qed simp_all

lemma valid_instance_check_size_x:
  assumes ok: "layout_ok m" and v: "valid_instance m x"
  shows "check_size_x m x = Inr ()"
proof -
  let ?T = "n_types m"
  note len = valid_instance_lengths[OF v]
  have lenF: "length (l_n_features m) = ?T" using ok by (simp add: layout_ok_def)
  have base: "base_check_size_x m x = Inr ()"
  proof -
    have "\<forall>t<length (l_n_features m). \<exists>a. node_features x ! t = Some a \<and> ndim a = 2
        \<and> shape a ! 1 = l_n_features m ! t"
    proof (intro allI impI)
      fix t assume "t < length (l_n_features m)"
      then have "t < ?T" using lenF by simp
      from valid_instance_node[OF v this] obtain a where
        "node_features x ! t = Some a" "ndim a = 2"
        "shape a = [n_nodes_of_type x t, l_n_features m ! t]" by blast
      then show "\<exists>a. node_features x ! t = Some a \<and> ndim a = 2 \<and> shape a ! 1 = l_n_features m ! t"
        by simp
    qed
    then have "base_check_blocks (l_n_features m) (node_features x) = Inr ()"
      using len(1) lenF by (intro base_check_blocks_ok) simp_all
    then show ?thesis using len(1) by (simp add: base_check_size_x_def)
  qed
  have pair: "edge_pair_ok (edges x ! q) (edge_features x ! q)
      \<and> edge_feature_columns_ok m x (q div ?T) (q mod ?T)" if "q < ?T * ?T" for q
  proof -
    note s = pair_index_split[OF that]
    from valid_instance_pair[OF v s(1,2)] s(3)
    show ?thesis
      by (auto simp: edge_pair_ok_def edge_feature_columns_ok_def ndim_def shape_at_def)
  qed
  have pairs: "check_edge_pairs (zip (edges x) (edge_features x)) = Inr ()"
  proof -
    have "\<forall>(e, f) \<in> set (zip (edges x) (edge_features x)). edge_pair_ok e f"
    proof (clarify)
      fix e f assume "(e, f) \<in> set (zip (edges x) (edge_features x))"
      then obtain q where "q < ?T * ?T" "e = edges x ! q" "f = edge_features x ! q"
        using len by (auto simp: in_set_zip)
      with pair show "edge_pair_ok e f" by simp
    qed
    then show ?thesis by (simp add: check_edge_pairs_ok)
  qed
  have cols: "check_edge_feature_sizes m x (iter_type_pairs m) = Inr ()"
  proof -
    have "\<forall>a<?T. \<forall>b<?T. edge_feature_columns_ok m x a b"
    proof (intro allI impI)
      fix a b assume ab: "a < ?T" "b < ?T"
      then have "a * ?T + b < ?T * ?T" by (rule flat_index_less)
      from pair[OF this] ab show "edge_feature_columns_ok m x a b" by simp
    qed
    moreover have "length (edge_features x) = ?T\<^sup>2" using len by (simp add: power2_eq_square)
    ultimately show ?thesis using check_edge_feature_sizes_all[OF ok] by blast
  qed
  show ?thesis
    using len base pairs cols by (simp add: check_size_x_Inr power2_eq_square)
qed

lemma map_err_all_Inr:
  assumes "\<forall>v \<in> set xs. f v = Inr (g v)"
  shows "map_err f xs = Inr (map g xs)"
  using assms by (induction xs) auto

lemma valid_instance_node_rows:
  assumes v: "valid_instance m x"
  shows "map_err node_block_rows (node_features x) = Inr (map (n_nodes_of_type x) [0..<n_types m])"
proof -
  let ?g = "\<lambda>b. case b of None \<Rightarrow> 0 | Some a \<Rightarrow> shape a ! 0"
  note len = valid_instance_lengths[OF v]
  have "\<forall>b \<in> set (node_features x). node_block_rows b = Inr (?g b)"
  proof
    fix b assume "b \<in> set (node_features x)"
    then obtain t where t: "t < n_types m" "b = node_features x ! t"
      using len(1) by (auto simp: in_set_conv_nth)
    from valid_instance_node[OF v t(1)] obtain a where
      "node_features x ! t = Some a" "shape a = [n_nodes_of_type x t, l_n_features m ! t]"
      by blast
    then have "b = Some a" "py_len a = Inr (shape a ! 0)"
      using t by (simp_all add: py_len_def)
    then show "node_block_rows b = Inr (?g b)"
      by (simp add: node_block_rows_def)
  qed
  then have "map_err node_block_rows (node_features x) = Inr (map ?g (node_features x))"
    by (rule map_err_all_Inr)
  also have "map ?g (node_features x) = map (n_nodes_of_type x) [0..<n_types m]"
    using len(1) by (intro nth_equalityI) (simp_all add: n_nodes_of_type_def)
  finally show ?thesis .
qed

lemma valid_labeling_lengths:
  assumes "valid_labeling m x y"
  shows "map length y = map (n_nodes_of_type x) [0..<n_types m]"
  using assms by (intro nth_equalityI) (simp_all add: valid_labeling_def)

lemma valid_check_size_y_discrete:
  assumes "valid_instance m x" "valid_labeling m x y"
  shows "check_size_y m x (Discrete y) = Inr ()"
  using valid_instance_node_rows[OF assms(1)] valid_labeling_lengths[OF assms(2)]
  by (simp add: check_size_y_def)



subsection \<open>The one-hot encoding of a valid labeling\<close>

lemma zip3_nth:
  assumes "length xs = n" "length ys = n" "length zs = n"
  shows "zip xs (zip ys zs) = map (\<lambda>t. (xs ! t, ys ! t, zs ! t)) [0..<n]"
  using assms by (intro nth_equalityI) simp_all

lemma length_l_type_startindex [simp]: "length (l_type_startindex m) = n_types m"
  by (simp add: l_type_startindex_def)

lemma length_l_edgetype_start_index [simp]:
  "length (l_edgetype_start_index m) = n_types m * n_types m"
  by (simp add: l_edgetype_start_index_def)

lemma length_node_state_columns:
  assumes "valid_labeling m x y"
  shows "length (node_state_columns m y) = sum_list (map (n_nodes_of_type x) [0..<n_types m])"
proof -
  have "map (\<lambda>t. length (y ! t)) [0..<n_types m] = map (n_nodes_of_type x) [0..<n_types m]"
    using assms by (simp add: valid_labeling_def)
  moreover have "length (node_state_columns m y)
      = sum_list (map (\<lambda>t. length (y ! t)) [0..<n_types m])"
    by (simp add: node_state_columns_def length_concat comp_def)
  ultimately show ?thesis by (simp only:)
qed

lemma edge_state_columns_by_index:
  "edge_state_columns m x y =
     concat (map (\<lambda>q.
        case edges x ! q of
          None \<Rightarrow> []
        | Some es \<Rightarrow>
            map (\<lambda>(a, b). int (l_edgetype_start_index m ! q)
                           + int (l_n_states m ! (q mod n_types m)) * (y ! (q div n_types m) ! nat a)
                           + y ! (q mod n_types m) ! nat b) es)
       [0..<n_types m * n_types m])"
proof -
  let ?T = "n_types m"
  let ?f = "\<lambda>(t1, t2).
        case edges x ! (t1 * ?T + t2) of
          None \<Rightarrow> []
        | Some es \<Rightarrow>
            map (\<lambda>(a, b). int (l_edgetype_start_index m ! (t1 * ?T + t2))
                           + int (l_n_states m ! t2) * (y ! t1 ! nat a) + y ! t2 ! nat b) es"
  have "map ?f (iter_type_pairs m) = map (\<lambda>q. ?f (iter_type_pairs m ! q)) [0..<?T * ?T]"
    by (intro nth_equalityI) simp_all
  also have "\<dots> = map (\<lambda>q.
        case edges x ! q of
          None \<Rightarrow> []
        | Some es \<Rightarrow>
            map (\<lambda>(a, b). int (l_edgetype_start_index m ! q)
                           + int (l_n_states m ! (q mod ?T)) * (y ! (q div ?T) ! nat a)
                           + y ! (q mod ?T) ! nat b) es) [0..<?T * ?T]"
    by (rule map_cong[OF refl]) (simp add: iter_type_pairs_nth_div cong: option.case_cong)
  finally show ?thesis by (simp add: edge_state_columns_def)
qed

lemma length_edge_state_columns:
  assumes "length (edges x) = n_types m * n_types m"
  shows "length (edge_state_columns m x y) = sum_list (map edge_block_rows (edges x))"
proof -
  have "map edge_block_rows (edges x)
      = map (\<lambda>q. edge_block_rows (edges x ! q)) [0..<n_types m * n_types m]"
    using assms by (intro nth_equalityI) simp_all
  moreover have "(\<lambda>q. length (case edges x ! q of None \<Rightarrow> [] | Some es \<Rightarrow> map (f q) es))
      = (\<lambda>q. edge_block_rows (edges x ! q))" for f :: "nat \<Rightarrow> int \<times> int \<Rightarrow> int"
    by (auto simp: edge_block_rows_def split: option.splits)
  ultimately show ?thesis
    by (simp add: edge_state_columns_by_index length_concat comp_def)
qed

lemma unary_onehot_valid:
  assumes ok: "layout_ok m" and v: "valid_instance m x" and l: "valid_labeling m x y"
  shows "unary_onehot_loop (zip (node_features x) (zip (l_type_startindex m) y)) 0
           (zeros2 (sum_list (map (n_nodes_of_type x) [0..<n_types m])) (n_states_total m))
         = Inr (onehot_unary m y)"
proof -
  let ?T = "n_types m"
  let ?N = "sum_list (map (n_nodes_of_type x) [0..<?T])"
  let ?S = "n_states_total m"
  let ?zs = "zip (node_features x) (zip (l_type_startindex m) y)"
  let ?cols = "node_state_columns m y"
  have lenS: "length (l_n_states m) = ?T" using ok by (simp add: layout_ok_def)
  have leny: "length y = ?T" using l by (simp add: valid_labeling_def)
  note len = valid_instance_lengths[OF v]
  have zs: "?zs = map (\<lambda>t. (node_features x ! t, l_type_startindex m ! t, y ! t)) [0..<?T]"
    using len(1) leny by (intro zip3_nth) simp_all
  have cols: "loop_node_columns ?zs = ?cols"
    unfolding zs by (simp add: loop_node_columns_def node_state_columns_def comp_def)
  have N: "length ?cols = ?N" using l by (rule length_node_state_columns)
  have blocks: "\<forall>(b, start, y_typ) \<in> set ?zs.
        (\<exists>nf. b = Some nf \<and> shape_at nf 0 = Inr (length y_typ))
        \<and> (\<forall>l \<in> set y_typ. 0 \<le> int start + l \<and> int start + l < int ?S)"
  proof (clarify)
    fix b start y_typ assume "(b, start, y_typ) \<in> set ?zs"
    then obtain t where t: "t < ?T" "b = node_features x ! t" "start = l_type_startindex m ! t"
        "y_typ = y ! t"
      unfolding zs by auto
    from valid_instance_node[OF v t(1)] obtain a where
      a: "node_features x ! t = Some a" "shape a = [n_nodes_of_type x t, l_n_features m ! t]"
      by blast
    have ly: "length (y ! t) = n_nodes_of_type x t"
      and lab: "\<forall>l \<in> set (y ! t). 0 \<le> l \<and> l < int (l_n_states m ! t)"
      using l t(1) by (simp_all add: valid_labeling_def)
    have "\<exists>nf. b = Some nf \<and> shape_at nf 0 = Inr (length y_typ)"
      using a t ly by (simp add: shape_at_def)
    moreover have "\<forall>l \<in> set y_typ. 0 \<le> int start + l \<and> int start + l < int ?S"
      using lab t type_column_in_range[OF lenS t(1)] by blast
    ultimately show "(\<exists>nf. b = Some nf \<and> shape_at nf 0 = Inr (length y_typ))
        \<and> (\<forall>l \<in> set y_typ. 0 \<le> int start + l \<and> int start + l < int ?S)" by blast
  qed
  have fit: "0 + length (loop_node_columns ?zs) \<le> ?N" using cols N by simp
  from unary_onehot_loop_get[OF shape_zeros2 wf_zeros2 blocks fit] obtain um' where
    um': "unary_onehot_loop ?zs 0 (zeros2 ?N ?S) = Inr um'" "shape um' = [?N, ?S]" "wf_array um'"
      "\<forall>i<?N. \<forall>j<?S. get2 um' i j =
          (if 0 \<le> i \<and> i < 0 + length (loop_node_columns ?zs)
                \<and> loop_node_columns ?zs ! (i - 0) = int j
           then 1 else get2 (zeros2 ?N ?S) i j)"
    by blast
  have "um' = onehot_unary m y"
  proof (rule array2_eqI[where r = ?N and c = ?S])
    show "shape um' = [?N, ?S]" by (rule um'(2))
    show "shape (onehot_unary m y) = [?N, ?S]" by (simp add: onehot_unary_def N)
    show "wf_array um'" by (rule um'(3))
    show "wf_array (onehot_unary m y)" by (simp add: onehot_unary_def)
    fix i j assume ij: "i < ?N" "j < ?S"
    then show "get2 um' i j = get2 (onehot_unary m y) i j"
      using um'(4) cols N by (simp add: onehot_unary_def)
  qed
  with um'(1) show ?thesis by simp
qed



lemma pairwise_onehot_valid:
  assumes ok: "layout_ok m" and v: "valid_instance m x" and l: "valid_labeling m x y"
  shows "pairwise_onehot_loop m y
           (zip (iter_type_pairs m) (zip (edges x) (l_edgetype_start_index m))) 0
           (zeros2 (sum_list (map edge_block_rows (edges x))) ((n_states_total m)\<^sup>2))
         = Inr (sum_list (map edge_block_rows (edges x)),
                (onehot_pairwise m x y :: ('b::{zero,one}) ndarray))"
proof -
  let ?T = "n_types m"
  let ?E = "sum_list (map edge_block_rows (edges x))"
  let ?C = "(n_states_total m)\<^sup>2"
  let ?zs = "zip (iter_type_pairs m) (zip (edges x) (l_edgetype_start_index m))"
  let ?cols = "edge_state_columns m x y"
  have lenS: "length (l_n_states m) = ?T" using ok by (simp add: layout_ok_def)
  have leny: "length y = ?T" using l by (simp add: valid_labeling_def)
  note len = valid_instance_lengths[OF v]
  have zs: "?zs = map (\<lambda>q. (iter_type_pairs m ! q, edges x ! q, l_edgetype_start_index m ! q))
      [0..<?T * ?T]"
    using len(2) by (intro zip3_nth) simp_all
  have zs': "?zs = map (\<lambda>q. ((q div ?T, q mod ?T), edges x ! q, l_edgetype_start_index m ! q))
      [0..<?T * ?T]"
    unfolding zs by (rule map_cong[OF refl]) (simp add: iter_type_pairs_nth_div)
  have cols: "loop_edge_columns m y ?zs = ?cols"
    unfolding zs' edge_state_columns_by_index
    by (simp add: loop_edge_columns_def comp_def)
  have E: "length ?cols = ?E" using len(2) by (rule length_edge_state_columns)
  have blocks: "\<forall>((t1, t2), eo, start) \<in> set ?zs.
        t1 < length y \<and> t2 < length y \<and> t2 < length (l_n_states m)
        \<and> (\<forall>es. eo = Some es \<longrightarrow>
              (\<forall>(a, b) \<in> set es.
                  0 \<le> a \<and> a < int (length (y ! t1)) \<and> 0 \<le> b \<and> b < int (length (y ! t2))
                  \<and> 0 \<le> int start + int (l_n_states m ! t2) * (y ! t1 ! nat a) + y ! t2 ! nat b
                  \<and> int start + int (l_n_states m ! t2) * (y ! t1 ! nat a) + y ! t2 ! nat b < int ?C))"
  proof (clarify)
    fix t1 t2 eo start assume "((t1, t2), eo, start) \<in> set ?zs"
    then obtain q where q: "q < ?T * ?T" "t1 = q div ?T" "t2 = q mod ?T" "eo = edges x ! q"
        "start = l_edgetype_start_index m ! q"
      unfolding zs' by auto
    note s = pair_index_split[OF q(1)]
    have t: "t1 < ?T" "t2 < ?T" "t1 * ?T + t2 = q" using s q by simp_all
    have ly1: "length (y ! t1) = n_nodes_of_type x t1"
      and lab1: "\<forall>l \<in> set (y ! t1). 0 \<le> l \<and> l < int (l_n_states m ! t1)"
      and ly2: "length (y ! t2) = n_nodes_of_type x t2"
      and lab2: "\<forall>l \<in> set (y ! t2). 0 \<le> l \<and> l < int (l_n_states m ! t2)"
      using l t(1,2) by (simp_all add: valid_labeling_def)
    have "0 \<le> a \<and> a < int (length (y ! t1)) \<and> 0 \<le> b \<and> b < int (length (y ! t2))
        \<and> 0 \<le> int start + int (l_n_states m ! t2) * (y ! t1 ! nat a) + y ! t2 ! nat b
        \<and> int start + int (l_n_states m ! t2) * (y ! t1 ! nat a) + y ! t2 ! nat b < int ?C"
      if "eo = Some es" "(a, b) \<in> set es" for es a b
    proof -
      from valid_instance_pair[OF v t(1,2)] that q(4) t(3)
      have ab: "0 \<le> a" "a < int (n_nodes_of_type x t1)" "0 \<le> b" "b < int (n_nodes_of_type x t2)"
        by auto
      then have "nat a < length (y ! t1)" "nat b < length (y ! t2)" using ly1 ly2 by simp_all
      then have "y ! t1 ! nat a \<in> set (y ! t1)" "y ! t2 ! nat b \<in> set (y ! t2)" by simp_all
      with lab1 lab2 have r: "0 \<le> y ! t1 ! nat a" "y ! t1 ! nat a < int (l_n_states m ! t1)"
          "0 \<le> y ! t2 ! nat b" "y ! t2 ! nat b < int (l_n_states m ! t2)" by blast+
      from pair_column_in_range[OF lenS t(1,2) r] ab ly1 ly2 q(5) t(3)
      show ?thesis by simp
    qed
    then show "t1 < length y \<and> t2 < length y \<and> t2 < length (l_n_states m)
        \<and> (\<forall>es. eo = Some es \<longrightarrow>
              (\<forall>(a, b) \<in> set es.
                  0 \<le> a \<and> a < int (length (y ! t1)) \<and> 0 \<le> b \<and> b < int (length (y ! t2))
                  \<and> 0 \<le> int start + int (l_n_states m ! t2) * (y ! t1 ! nat a) + y ! t2 ! nat b
                  \<and> int start + int (l_n_states m ! t2) * (y ! t1 ! nat a) + y ! t2 ! nat b < int ?C))"
      using t leny lenS by auto
  qed
  have fit: "0 + length (loop_edge_columns m y ?zs) \<le> ?E" using cols E by simp
  from pairwise_onehot_loop_get[OF shape_zeros2 wf_zeros2 blocks fit] obtain pw' :: "'b ndarray" where
    pw': "pairwise_onehot_loop m y ?zs 0 (zeros2 ?E ?C)
            = Inr (0 + length (loop_edge_columns m y ?zs), pw')"
      "shape pw' = [?E, ?C]" "wf_array pw'"
      "\<forall>i<?E. \<forall>j<?C. get2 pw' i j =
          (if 0 \<le> i \<and> i < 0 + length (loop_edge_columns m y ?zs)
                \<and> loop_edge_columns m y ?zs ! (i - 0) = int j
           then 1 else get2 (zeros2 ?E ?C) i j)"
    by blast
  have "pw' = onehot_pairwise m x y"
  proof (rule array2_eqI[where r = ?E and c = ?C])
    show "shape pw' = [?E, ?C]" by (rule pw'(2))
    show "shape (onehot_pairwise m x y) = [?E, ?C]" by (simp add: onehot_pairwise_def E)
    show "wf_array pw'" by (rule pw'(3))
    show "wf_array (onehot_pairwise m x y)" by (simp add: onehot_pairwise_def)
    fix i j assume ij: "i < ?E" "j < ?C"
    then show "get2 pw' i j = get2 (onehot_pairwise m x y) i j"
      using pw'(4) cols E by (simp add: onehot_pairwise_def)
  qed
  with pw'(1) cols E show ?thesis by simp
qed

lemma discrete_marginals_onehot:
  assumes ok: "layout_ok m" and v: "valid_instance m x" and l: "valid_labeling m x y"
  shows "discrete_marginals m x y (sum_list (map (n_nodes_of_type x) [0..<n_types m]))
           (sum_list (map edge_block_rows (edges x)))
         = Inr (onehot_unary m y, onehot_pairwise m x y)"
  by (simp add: discrete_marginals_def unary_onehot_valid[OF assms] pairwise_onehot_valid[OF assms])

lemma shape_onehot_unary:
  assumes "valid_labeling m x y"
  shows "shape (onehot_unary m y :: ('a::{zero,one}) ndarray)
         = [sum_list (map (n_nodes_of_type x) [0..<n_types m]), n_states_total m]"
  using length_node_state_columns[OF assms] by (simp add: onehot_unary_def)

lemma shape_onehot_pairwise:
  assumes "valid_instance m x"
  shows "shape (onehot_pairwise m x y :: ('a::{zero,one}) ndarray)
         = [sum_list (map edge_block_rows (edges x)), (n_states_total m)\<^sup>2]"
  using length_edge_state_columns[OF valid_instance_lengths(2)[OF assms]]
  by (simp add: onehot_pairwise_def)

lemma valid_check_size_y_relaxed:
  fixes x :: "('a::{zero,one}) graph_instance"
  assumes "valid_instance m x" "valid_labeling m x y"
  shows "check_size_y m x (Relaxed (onehot_unary m y) (onehot_pairwise m x y)) = Inr ()"
proof -
  have "shape (onehot_unary m y :: 'a ndarray)
         = [sum_list (map (n_nodes_of_type x) [0..<n_types m]), n_states_total m]"
    using assms(2) by (rule shape_onehot_unary)
  moreover have "shape (onehot_pairwise m x y :: 'a ndarray)
         = [sum_list (map edge_block_rows (edges x)), (n_states_total m)\<^sup>2]"
    using assms(1) by (rule shape_onehot_pairwise)
  ultimately show ?thesis
    using valid_instance_node_rows[OF assms(1)] by (simp add: check_size_y_def)
qed

lemma reshape2_same:
  assumes "shape a = [r, c]" "wf_array a"
  shows "reshape2 a r c = Inr a"
  using assms by (cases a) (simp add: reshape2_def wf_array_def)

lemma joint_feature_discrete_valid:
  assumes ok: "layout_ok m" and v: "valid_instance m x" and l: "valid_labeling m x y"
  shows "joint_feature m x (Discrete y)
    = assemble_joint_feature m x (sum_list (map (n_nodes_of_type x) [0..<n_types m]))
        (sum_list (map edge_block_rows (edges x))) (onehot_unary m y) (onehot_pairwise m x y)"
  by (simp add: joint_feature_def valid_instance_check_size_x[OF ok v]
      valid_check_size_y_discrete[OF v l] valid_instance_node_rows[OF v]
      discrete_marginals_onehot[OF assms])

lemma joint_feature_relaxed_onehot:
  assumes ok: "layout_ok m" and v: "valid_instance m x" and l: "valid_labeling m x y"
  shows "joint_feature m x (Relaxed (onehot_unary m y) (onehot_pairwise m x y))
    = assemble_joint_feature m x (sum_list (map (n_nodes_of_type x) [0..<n_types m]))
        (sum_list (map edge_block_rows (edges x))) (onehot_unary m y) (onehot_pairwise m x y)"
proof -
  have "reshape2 (onehot_unary m y :: 'a ndarray)
      (sum_list (map (n_nodes_of_type x) [0..<n_types m])) (n_states_total m)
      = Inr (onehot_unary m y)"
    using shape_onehot_unary[OF l] by (intro reshape2_same) (simp_all add: onehot_unary_def)
  then show ?thesis
    by (simp add: joint_feature_def valid_instance_check_size_x[OF ok v]
      valid_check_size_y_relaxed[OF v l] valid_instance_node_rows[OF v])
qed



subsection \<open>Stacking the feature blocks\<close>

lemma tabulate2_cong:
  assumes "\<And>i j. i < r \<Longrightarrow> j < c \<Longrightarrow> f i j = g i j"
  shows "tabulate2 r c f = tabulate2 r c g"
  by (rule array2_eqI[where r = r and c = c]) (simp_all add: assms)

lemma assign_block_exact:
  assumes "shape a = [r, c]" "shape b = [n, w]" "i0 + n \<le> r" "j0 + w \<le> c"
  shows "assign_block a i0 (i0 + n) j0 (j0 + w) b =
     Inr (tabulate2 r c (\<lambda>i j.
            if i0 \<le> i \<and> i < i0 + n \<and> j0 \<le> j \<and> j < j0 + w
            then get2 b (i - i0) (j - j0) else get2 a i j))"
proof -
  have m1: "min (i0 + n) r - i0 = n" and m2: "min (j0 + w) c - j0 = w"
    using assms(3,4) by simp_all
  have "tabulate2 r c (\<lambda>i j.
            if i0 \<le> i \<and> i < i0 + n \<and> j0 \<le> j \<and> j < j0 + w
            then get2 b (if shape b ! 0 = 1 then 0 else i - i0)
                        (if shape b ! 1 = 1 then 0 else j - j0)
            else get2 a i j)
      = tabulate2 r c (\<lambda>i j.
            if i0 \<le> i \<and> i < i0 + n \<and> j0 \<le> j \<and> j < j0 + w
            then get2 b (i - i0) (j - j0) else get2 a i j)"
    by (rule tabulate2_cong) (use assms(2) in auto)
  moreover have "assign_block a i0 (i0 + n) j0 (j0 + w) b =
     Inr (tabulate2 r c (\<lambda>i j.
            if i0 \<le> i \<and> i < i0 + n \<and> j0 \<le> j \<and> j < j0 + w
            then get2 b (if shape b ! 0 = 1 then 0 else i - i0)
                        (if shape b ! 1 = 1 then 0 else j - j0)
            else get2 a i j))"
    using assms(1,2) m1 m2 by (simp add: assign_block_def ndim_def Let_def)
  ultimately show ?thesis by (simp only:)
qed

lemma stack_node_features_shape:
  assumes "shape a = [N, F]"
    and "\<forall>((c0, c1), b) \<in> set zs. \<exists>nf n. b = Some nf \<and> shape nf = [n, c1 - c0] \<and> c0 \<le> c1 \<and> c1 \<le> F"
    and "i_start + sum_list (map (\<lambda>(c, b). case b of None \<Rightarrow> 0 | Some nf \<Rightarrow> shape nf ! 0) zs) \<le> N"
    and "zs \<noteq> [] \<or> wf_array a"
  shows "\<exists>a'. stack_node_features zs i_start a
       = Inr (i_start + sum_list (map (\<lambda>(c, b). case b of None \<Rightarrow> 0 | Some nf \<Rightarrow> shape nf ! 0) zs), a')
     \<and> shape a' = [N, F] \<and> wf_array a'"
  using assms
proof (induction zs arbitrary: i_start a)
  case Nil
  then show ?case by simp
next
  case (Cons z zs)
  obtain c0 c1 b where z: "z = ((c0, c1), b)" by (cases z) auto
  with Cons.prems(2) obtain nf n where nf: "b = Some nf" "shape nf = [n, c1 - c0]" "c0 \<le> c1" "c1 \<le> F"
    by auto
  have fit: "i_start + n \<le> N" using Cons.prems(3) z nf by simp
  have c1: "c1 = c0 + (c1 - c0)" and cfit: "c0 + (c1 - c0) \<le> F" using nf(3,4) by simp_all
  let ?a1 = "tabulate2 N F (\<lambda>i j.
            if i_start \<le> i \<and> i < i_start + n \<and> c0 \<le> j \<and> j < c0 + (c1 - c0)
            then get2 nf (i - i_start) (j - c0) else get2 a i j)"
  have ab: "assign_block a i_start (i_start + n) c0 c1 nf = Inr ?a1"
    using assign_block_exact[OF Cons.prems(1) nf(2) fit cfit] c1 by simp
  have rest: "\<forall>((c0, c1), b) \<in> set zs. \<exists>nf n. b = Some nf \<and> shape nf = [n, c1 - c0] \<and> c0 \<le> c1 \<and> c1 \<le> F"
    using Cons.prems(2) by simp
  have fit': "(i_start + n) + sum_list (map (\<lambda>(c, b). case b of None \<Rightarrow> 0 | Some nf \<Rightarrow> shape nf ! 0) zs) \<le> N"
    using Cons.prems(3) z nf by simp
  from Cons.IH[of ?a1 "i_start + n", OF _ rest fit'] obtain a' where
    "stack_node_features zs (i_start + n) ?a1
       = Inr (i_start + n + sum_list (map (\<lambda>(c, b). case b of None \<Rightarrow> 0 | Some nf \<Rightarrow> shape nf ! 0) zs), a')"
    "shape a' = [N, F]" "wf_array a'"
    by auto
  then show ?case
    using z nf ab by (simp add: shape_at_def Let_def add.assoc)
qed

lemma stack_edge_features_shape:
  assumes "shape a = [E, K]" "wf_array a"
    and "\<forall>b \<in> set bs. \<forall>f. b = Some f \<longrightarrow> (\<exists>n c. shape f = [n, c])"
    and "i_start + sum_list (map (\<lambda>b. case b of None \<Rightarrow> 0 | Some f \<Rightarrow> shape f ! 0) bs) \<le> E"
    and "i_col_start + sum_list (map (\<lambda>b. case b of None \<Rightarrow> 0 | Some f \<Rightarrow> shape f ! 1) bs) \<le> K"
  shows "\<exists>a'. stack_edge_features bs i_start i_col_start a = Inr a' \<and> shape a' = [E, K]
     \<and> wf_array a'"
  using assms
proof (induction bs arbitrary: i_start i_col_start a)
  case Nil
  then show ?case by simp
next
  case (Cons b bs)
  show ?case
  proof (cases b)
    case None
    with Cons.prems have "\<exists>a'. stack_edge_features bs i_start i_col_start a = Inr a'
        \<and> shape a' = [E, K] \<and> wf_array a'"
      by (intro Cons.IH) simp_all
    with None show ?thesis by simp
  next
    case (Some f)
    with Cons.prems(3) obtain n c where f: "shape f = [n, c]" by auto
    have fit: "i_start + n \<le> E" "i_col_start + c \<le> K"
      using Cons.prems(4,5) Some f by simp_all
    let ?a1 = "tabulate2 E K (\<lambda>i j.
            if i_start \<le> i \<and> i < i_start + n \<and> i_col_start \<le> j \<and> j < i_col_start + c
            then get2 f (i - i_start) (j - i_col_start) else get2 a i j)"
    have ab: "assign_block a i_start (i_start + n) i_col_start (i_col_start + c) f = Inr ?a1"
      by (rule assign_block_exact[OF Cons.prems(1) f fit])
    have "\<exists>a'. stack_edge_features bs (i_start + n) (i_col_start + c) ?a1 = Inr a'
        \<and> shape a' = [E, K] \<and> wf_array a'"
      using Cons.prems(3,4,5) Some f by (intro Cons.IH) (simp_all add: add.assoc)
    then show ?thesis using Some f ab by (simp add: Let_def)
  qed
qed

subsection \<open>Products\<close>

lemma shape_transpose2 [simp]: "shape (transpose2 a) = [shape a ! 1, shape a ! 0]"
  by (simp add: transpose2_def)

lemma dot2_transpose:
  assumes "shape a = [n, r]" "shape b = [n, c]"
  shows "dot2 (transpose2 a) b =
     Inr (tabulate2 r c (\<lambda>i j. sum_list (map (\<lambda>k. get2 a k i * get2 b k j) [0..<n])))"
proof -
  have "tabulate2 r c (\<lambda>i j. sum_list (map (\<lambda>k. get2 (transpose2 a) i k * get2 b k j) [0..<n]))
      = tabulate2 r c (\<lambda>i j. sum_list (map (\<lambda>k. get2 a k i * get2 b k j) [0..<n]))"
  proof (rule tabulate2_cong)
    fix i j assume "i < r" "j < c"
    then have "map (\<lambda>k. get2 (transpose2 a) i k * get2 b k j) [0..<n]
        = map (\<lambda>k. get2 a k i * get2 b k j) [0..<n]"
      using assms(1) by (intro map_cong) (simp_all add: transpose2_def)
    then show "sum_list (map (\<lambda>k. get2 (transpose2 a) i k * get2 b k j) [0..<n])
        = sum_list (map (\<lambda>k. get2 a k i * get2 b k j) [0..<n])" by (rule arg_cong)
  qed
  then show ?thesis using assms by (simp add: dot2_def ndim_def)
qed



subsection \<open>Cut-points of the layout\<close>

lemma length_cumsum_from [simp]: "length (cumsum_from acc xs) = length xs"
  by (induction xs arbitrary: acc) simp_all

lemma cumsum_from_nth:
  "k < length xs \<Longrightarrow> cumsum_from acc xs ! k = acc + sum_list (take (Suc k) xs)"
proof (induction xs arbitrary: acc k)
  case Nil
  then show ?case by simp
next
  case (Cons x xs)
  then show ?case by (cases k) (simp_all add: add.assoc)
qed

lemma length_cumsum [simp]: "length (cumsum xs) = length xs"
  by (simp add: cumsum_def)

lemma cumsum_nth: "k < length xs \<Longrightarrow> cumsum xs ! k = sum_list (take (Suc k) xs)"
  by (simp add: cumsum_def cumsum_from_nth)

lemma layout_cuts:
  assumes "length xs = n" "length ys = n"
  shows "(0, 0) # zip (cumsum xs) (cumsum ys)
       = map (\<lambda>k. (sum_list (take k xs), sum_list (take k ys))) [0..<Suc n]"
proof (rule nth_equalityI)
  show "length ((0, 0) # zip (cumsum xs) (cumsum ys))
      = length (map (\<lambda>k. (sum_list (take k xs), sum_list (take k ys))) [0..<Suc n])"
    using assms by simp
next
  fix k assume "k < length ((0, 0) # zip (cumsum xs) (cumsum ys))"
  then have k: "k < Suc n" using assms by simp
  show "((0, 0) # zip (cumsum xs) (cumsum ys)) ! k
      = map (\<lambda>k. (sum_list (take k xs), sum_list (take k ys))) [0..<Suc n] ! k"
  proof (cases k)
    case 0
    then show ?thesis by (simp del: upt_Suc)
  next
    case (Suc k')
    then have "k' < n" using k by simp
    then show ?thesis
      using Suc assms k nth_map_upt[of k "Suc n" 0 "\<lambda>k. (sum_list (take k xs), sum_list (take k ys))"]
      by (simp add: cumsum_nth del: upt_Suc)
  qed
qed

lemma diagonal_blocks_layout:
  assumes "length xs = n" "length ys = n"
  shows "diagonal_blocks a ((0, 0) # zip (cumsum xs) (cumsum ys))
    = concat (map (\<lambda>k.
        concat (map (\<lambda>i. map (get2 a i)
                     [sum_list (take k ys)..<sum_list (take k ys) + ys ! k])
                  [sum_list (take k xs)..<sum_list (take k xs) + xs ! k]))
       [0..<n])"
proof -
  let ?lij = "map (\<lambda>k. (sum_list (take k xs), sum_list (take k ys))) [0..<Suc n]"
  have "diagonal_blocks a ?lij
      = concat (map (\<lambda>k.
        concat (map (\<lambda>i. map (get2 a i) [snd (?lij ! k)..<snd (?lij ! Suc k)])
                  [fst (?lij ! k)..<fst (?lij ! Suc k)]))
       [0..<n])"
    by (simp add: diagonal_blocks_def del: upt_Suc)
  also have "\<dots> = concat (map (\<lambda>k.
        concat (map (\<lambda>i. map (get2 a i)
                     [sum_list (take k ys)..<sum_list (take k ys) + ys ! k])
                  [sum_list (take k xs)..<sum_list (take k xs) + xs ! k]))
       [0..<n])"
  proof (rule arg_cong[where f = concat], rule map_cong[OF refl])
    fix k assume "k \<in> set [0..<n]"
    then have k: "k < n" by simp
    then have "?lij ! k = (sum_list (take k xs), sum_list (take k ys))"
      "?lij ! Suc k = (sum_list (take k xs) + xs ! k, sum_list (take k ys) + ys ! k)"
      using assms
        nth_map_upt[of k "Suc n" 0 "\<lambda>k. (sum_list (take k xs), sum_list (take k ys))"]
        nth_map_upt[of "Suc k" "Suc n" 0 "\<lambda>k. (sum_list (take k xs), sum_list (take k ys))"]
      by (simp_all add: sum_list_take_Suc del: upt_Suc)
    then show "concat (map (\<lambda>i. map (get2 a i) [snd (?lij ! k)..<snd (?lij ! Suc k)])
                  [fst (?lij ! k)..<fst (?lij ! Suc k)])
        = concat (map (\<lambda>i. map (get2 a i)
                     [sum_list (take k ys)..<sum_list (take k ys) + ys ! k])
                  [sum_list (take k xs)..<sum_list (take k xs) + xs ! k])"
      by simp
  qed
  finally show ?thesis using layout_cuts[OF assms] by simp
qed

lemma length_block:
  "length (concat (map (\<lambda>i. map (f i) [c0..<c0 + w]) [r0..<r0 + h])) = h * w"
  by (simp add: length_concat comp_def sum_list_triv)

lemma length_diagonal_blocks_layout:
  assumes "length xs = n" "length ys = n"
  shows "length (diagonal_blocks a ((0, 0) # zip (cumsum xs) (cumsum ys)))
       = (\<Sum>k<n. xs ! k * ys ! k)"
proof -
  have "length (diagonal_blocks a ((0, 0) # zip (cumsum xs) (cumsum ys)))
      = sum_list (map (\<lambda>k. xs ! k * ys ! k) [0..<n])"
  proof -
    have "length (concat (map g [0..<n])) = sum_list (map (\<lambda>k. length (g k)) [0..<n])"
      for g :: "nat \<Rightarrow> 'a list"
      by (simp add: length_concat comp_def)
    then show ?thesis
      unfolding diagonal_blocks_layout[OF assms] by (simp only: length_block)
  qed
  then show ?thesis
    by (simp add: interv_sum_list_conv_sum_set_nat atLeast0LessThan)
qed

lemma layout_cuts_in_range:
  assumes "length xs = n" "length ys = n"
  shows "\<forall>(i, j) \<in> set ((0, 0) # zip (cumsum xs) (cumsum ys)). i \<le> sum_list xs \<and> j \<le> sum_list ys"
  unfolding layout_cuts[OF assms] by (auto simp: sum_list_take_le simp del: upt_Suc)

lemma block_ravel_layout:
  assumes "shape a = [sum_list xs, sum_list ys]" "wf_array a"
    and "length xs = n" "length ys = n" "0 < n"
  shows "block_ravel a ((0, 0) # zip (cumsum xs) (cumsum ys))
       = Inr (diagonal_blocks a ((0, 0) # zip (cumsum xs) (cumsum ys)))"
  using assms(3,4,5)
  by (intro block_ravel_2d[OF assms(1,2)] layout_cuts_in_range[OF assms(3,4)]) simp



subsection \<open>The sizes of a constructed model\<close>

lemma wf_model_sizes:
  assumes "wf_model m"
  shows "size_unaries m = Some (unary_size m)"
    and "size_pairwise m = Some (pairwise_size m)"
    and "size_joint_feature m = Some (unary_size m + pairwise_size m)"
proof -
  from assms have ok: "layout_ok m" and s: "set_size_joint_feature m = Inr m"
    by (simp_all add: wf_model_def)
  from set_size_joint_feature_layout[OF ok] s
  have eq: "m = m\<lparr>size_unaries := Some (unary_size m),
            size_pairwise := Some (pairwise_size m),
            size_joint_feature := Some (unary_size m + pairwise_size m)\<rparr>"
    by simp
  show "size_unaries m = Some (unary_size m)"
    by (subst eq) simp
  show "size_pairwise m = Some (pairwise_size m)"
    by (subst eq) simp
  show "size_joint_feature m = Some (unary_size m + pairwise_size m)"
    by (subst eq) simp
qed

lemma layout_ok_flat:
  assumes "layout_ok m"
  shows "length (flat (a_n_edge_features m)) = n_types m * n_types m"
    and "t1 < n_types m \<Longrightarrow> t2 < n_types m \<Longrightarrow>
         get2 (a_n_edge_features m) t1 t2 = flat (a_n_edge_features m) ! (t1 * n_types m + t2)"
  using assms by (simp_all add: layout_ok_def wf_array_def get2_def)

lemma pairwise_size_by_index:
  assumes ok: "layout_ok m"
  shows "pairwise_size m
       = (\<Sum>q<n_types m * n_types m. flat (a_n_edge_features m) ! q * state_products m ! q)"
proof -
  let ?T = "n_types m"
  let ?A = "flat (a_n_edge_features m)"
  let ?h = "\<lambda>(t1, t2). ?A ! (t1 * ?T + t2) * (l_n_states m ! t1 * l_n_states m ! t2)"
  have "(\<Sum>q<?T * ?T. ?A ! q * state_products m ! q)
      = sum_list (map (\<lambda>q. ?A ! q * state_products m ! q) [0..<?T * ?T])"
    by (simp add: interv_sum_list_conv_sum_set_nat atLeast0LessThan)
  also have "map (\<lambda>q. ?A ! q * state_products m ! q) [0..<?T * ?T]
      = map (\<lambda>q. ?h (iter_type_pairs m ! q)) [0..<?T * ?T]"
  proof (rule map_cong[OF refl])
    fix q assume "q \<in> set [0..<?T * ?T]"
    then have q: "q < ?T * ?T" by simp
    note s = pair_index_split[OF q]
    have "state_products m ! q = l_n_states m ! (q div ?T) * l_n_states m ! (q mod ?T)"
      using state_products_nth[OF s(1,2)] s(3) by simp
    then show "?A ! q * state_products m ! q = ?h (iter_type_pairs m ! q)"
      using q s(3) by (simp add: iter_type_pairs_nth_div)
  qed
  also have "\<dots> = map ?h (iter_type_pairs m)"
    by (intro nth_equalityI) simp_all
  also have "sum_list (map ?h (iter_type_pairs m))
      = (\<Sum>t1<?T. \<Sum>t2<?T. ?A ! (t1 * ?T + t2) * (l_n_states m ! t1 * l_n_states m ! t2))"
    by (simp add: iter_type_pairs_def sum_list_pairs)
  also have "\<dots> = pairwise_size m"
    unfolding pairwise_size_def
    by (intro sum.cong refl) (simp add: layout_ok_flat(2)[OF ok] mult.assoc)
  finally show ?thesis by simp
qed

lemma unary_size_by_index: "unary_size m = (\<Sum>k<n_types m. l_n_states m ! k * l_n_features m ! k)"
  by (simp add: unary_size_def)

subsection \<open>Stacking the blocks of a valid instance\<close>

lemma length_a_feature_slice_by_typ [simp]: "length (a_feature_slice_by_typ m) = n_types m"
  by (simp add: a_feature_slice_by_typ_def)

lemma stack_node_features_valid:
  assumes ok: "layout_ok m" and v: "valid_instance m x"
  shows "\<exists>anf. stack_node_features (zip (a_feature_slice_by_typ m) (node_features x)) 0
           (zeros2 (sum_list (map (n_nodes_of_type x) [0..<n_types m])) (n_features_total m))
         = Inr (sum_list (map (n_nodes_of_type x) [0..<n_types m]), anf)
     \<and> shape anf = [sum_list (map (n_nodes_of_type x) [0..<n_types m]), n_features_total m]
     \<and> wf_array anf"
proof -
  let ?T = "n_types m"
  let ?N = "sum_list (map (n_nodes_of_type x) [0..<?T])"
  let ?F = "n_features_total m"
  let ?zs = "zip (a_feature_slice_by_typ m) (node_features x)"
  let ?rows = "\<lambda>(c, b). case b of None \<Rightarrow> 0 | Some nf \<Rightarrow> shape nf ! 0"
  note len = valid_instance_lengths[OF v]
  have lenF: "length (l_n_features m) = ?T" using ok by (simp add: layout_ok_def)
  have zs: "?zs = map (\<lambda>t. (a_feature_slice_by_typ m ! t, node_features x ! t)) [0..<?T]"
    using len(1) by (intro nth_equalityI) simp_all
  have rows: "map ?rows ?zs = map (n_nodes_of_type x) [0..<?T]"
    unfolding zs by (simp add: n_nodes_of_type_def)
  have blocks: "\<forall>((c0, c1), b) \<in> set ?zs.
      \<exists>nf n. b = Some nf \<and> shape nf = [n, c1 - c0] \<and> c0 \<le> c1 \<and> c1 \<le> ?F"
  proof (clarify)
    fix c0 c1 b assume "((c0, c1), b) \<in> set ?zs"
    then obtain t where t: "t < ?T" "(c0, c1) = a_feature_slice_by_typ m ! t"
        "b = node_features x ! t"
      unfolding zs by auto
    from valid_instance_node[OF v t(1)] obtain a where
      a: "node_features x ! t = Some a" "shape a = [n_nodes_of_type x t, l_n_features m ! t]"
      by blast
    have c: "c0 = sum_list (take t (l_n_features m))"
        "c1 = sum_list (take t (l_n_features m)) + l_n_features m ! t"
      using t(1,2) lenF by (simp_all add: a_feature_slice_by_typ_def sum_list_take_Suc)
    have "c1 \<le> ?F"
      unfolding c n_features_total_def using t(1) lenF by (intro offset_plus_size_le) simp
    then show "\<exists>nf n. b = Some nf \<and> shape nf = [n, c1 - c0] \<and> c0 \<le> c1 \<and> c1 \<le> ?F"
      using a t(3) c by simp
  qed
  have fit: "0 + sum_list (map ?rows ?zs) \<le> ?N" using rows by simp
  have ne: "?zs \<noteq> [] \<or> wf_array (zeros2 ?N ?F :: 'a ndarray)" by simp
  from stack_node_features_shape[OF shape_zeros2 blocks fit ne] rows
  show ?thesis by simp
qed

lemma edge_feature_block_rows:
  assumes v: "valid_instance m x"
  shows "map (\<lambda>b. case b of None \<Rightarrow> 0 | Some f \<Rightarrow> shape f ! 0) (edge_features x)
       = map edge_block_rows (edges x)"
proof (rule nth_equalityI)
  note len = valid_instance_lengths[OF v]
  show "length (map (\<lambda>b. case b of None \<Rightarrow> 0 | Some f \<Rightarrow> shape f ! 0) (edge_features x))
      = length (map edge_block_rows (edges x))"
    using len by simp
  fix q assume "q < length (map (\<lambda>b. case b of None \<Rightarrow> 0 | Some f \<Rightarrow> shape f ! 0) (edge_features x))"
  then have q: "q < n_types m * n_types m" using len by simp
  note s = pair_index_split[OF q]
  from valid_instance_pair[OF v s(1,2)] s(3) q len
  show "map (\<lambda>b. case b of None \<Rightarrow> 0 | Some f \<Rightarrow> shape f ! 0) (edge_features x) ! q
      = map edge_block_rows (edges x) ! q"
    by (auto simp: edge_block_rows_def)
qed

lemma edge_feature_block_columns:
  assumes ok: "layout_ok m" and v: "valid_instance m x"
  shows "sum_list (map (\<lambda>b. case b of None \<Rightarrow> 0 | Some f \<Rightarrow> shape f ! 1) (edge_features x))
       \<le> n_edge_features_total m"
proof -
  let ?T = "n_types m"
  let ?c = "\<lambda>b. case b of None \<Rightarrow> 0 | Some f \<Rightarrow> shape f ! 1"
  note len = valid_instance_lengths[OF v]
  have "map ?c (edge_features x) = map (\<lambda>q. ?c (edge_features x ! q)) [0..<?T * ?T]"
    using len by (intro nth_equalityI) simp_all
  moreover have "flat (a_n_edge_features m) = map (\<lambda>q. flat (a_n_edge_features m) ! q) [0..<?T * ?T]"
    using layout_ok_flat(1)[OF ok] by (intro nth_equalityI) simp_all
  moreover have "sum_list (map (\<lambda>q. ?c (edge_features x ! q)) [0..<?T * ?T])
      \<le> sum_list (map (\<lambda>q. flat (a_n_edge_features m) ! q) [0..<?T * ?T])"
  proof (rule sum_list_mono)
    fix q assume "q \<in> set [0..<?T * ?T]"
    then have q: "q < ?T * ?T" by simp
    note s = pair_index_split[OF q]
    from valid_instance_pair[OF v s(1,2)] s(3) layout_ok_flat(2)[OF ok s(1,2)]
    show "?c (edge_features x ! q) \<le> flat (a_n_edge_features m) ! q"
      by auto
  qed
  ultimately show ?thesis by (simp add: n_edge_features_total_def)
qed

lemma stack_edge_features_valid:
  assumes ok: "layout_ok m" and v: "valid_instance m x"
  shows "\<exists>aef. stack_edge_features (edge_features x) 0 0
           (zeros2 (sum_list (map edge_block_rows (edges x))) (n_edge_features_total m))
         = Inr aef
     \<and> shape aef = [sum_list (map edge_block_rows (edges x)), n_edge_features_total m]
     \<and> wf_array aef"
proof -
  have blocks: "\<forall>b \<in> set (edge_features x). \<forall>f. b = Some f \<longrightarrow> (\<exists>n c. shape f = [n, c])"
  proof (intro ballI allI impI)
    fix b f assume "b \<in> set (edge_features x)" "b = Some f"
    then obtain q where q: "q < n_types m * n_types m" "edge_features x ! q = Some f"
      using valid_instance_lengths(3)[OF v] by (auto simp: in_set_conv_nth)
    note s = pair_index_split[OF q(1)]
    from valid_instance_pair[OF v s(1,2)] s(3) q(2)
    show "\<exists>n c. shape f = [n, c]" by auto
  qed
  have r: "0 + sum_list (map (\<lambda>b. case b of None \<Rightarrow> 0 | Some f \<Rightarrow> shape f ! 0) (edge_features x))
      \<le> sum_list (map edge_block_rows (edges x))"
    using edge_feature_block_rows[OF v] by simp
  have c: "0 + sum_list (map (\<lambda>b. case b of None \<Rightarrow> 0 | Some f \<Rightarrow> shape f ! 1) (edge_features x))
      \<le> n_edge_features_total m"
    using edge_feature_block_columns[OF ok v] by simp
  show ?thesis
    by (rule stack_edge_features_shape[OF shape_zeros2 wf_zeros2 blocks r c])
qed



subsection \<open>The assembly for a valid instance\<close>

lemma assemble_valid:
  fixes um pw :: "('a::semiring_1) ndarray" and x :: "'a graph_instance"
  assumes wf: "wf_model m" and v: "valid_instance m x"
    and um: "shape um = [sum_list (map (n_nodes_of_type x) [0..<n_types m]), n_states_total m]"
    and pw: "shape pw = [sum_list (map edge_block_rows (edges x)), (n_states_total m)\<^sup>2]"
  shows "\<exists>anf aef.
       stack_edge_features (edge_features x) 0 0
           (zeros2 (sum_list (map edge_block_rows (edges x))) (n_edge_features_total m))
         = Inr aef
     \<and> assemble_joint_feature m x (sum_list (map (n_nodes_of_type x) [0..<n_types m]))
         (sum_list (map edge_block_rows (edges x))) um pw
       = Inr (diagonal_blocks
                (tabulate2 (n_states_total m) (n_features_total m)
                   (\<lambda>i j. sum_list (map (\<lambda>k. get2 um k i * get2 anf k j)
                      [0..<sum_list (map (n_nodes_of_type x) [0..<n_types m])])))
                ((0, 0) # zip (cumsum (l_n_states m)) (cumsum (l_n_features m)))
              @ diagonal_blocks
                (tabulate2 (n_edge_features_total m) ((n_states_total m)\<^sup>2)
                   (\<lambda>i j. sum_list (map (\<lambda>e. get2 aef e i * get2 pw e j)
                      [0..<sum_list (map edge_block_rows (edges x))])))
                ((0, 0) # zip (cumsum (flat (a_n_edge_features m))) (cumsum (state_products m))))"
proof -
  let ?T = "n_types m"
  let ?N = "sum_list (map (n_nodes_of_type x) [0..<?T])"
  let ?E = "sum_list (map edge_block_rows (edges x))"
  let ?S = "n_states_total m" and ?F = "n_features_total m" and ?K = "n_edge_features_total m"
  let ?cutsU = "(0, 0) # zip (cumsum (l_n_states m)) (cumsum (l_n_features m))"
  let ?cutsP = "(0, 0) # zip (cumsum (flat (a_n_edge_features m))) (cumsum (state_products m))"
  from wf have ok: "layout_ok m" by (simp add: wf_model_def)
  then have T: "0 < ?T" and lenS: "length (l_n_states m) = ?T" and lenF: "length (l_n_features m) = ?T"
    by (simp_all add: layout_ok_def)
  have lenA: "length (flat (a_n_edge_features m)) = ?T * ?T" by (rule layout_ok_flat(1)[OF ok])
  have TT: "0 < ?T * ?T" using T by simp
  from stack_node_features_valid[OF ok v] obtain anf :: "'a ndarray" where
    anf: "stack_node_features (zip (a_feature_slice_by_typ m) (node_features x)) 0 (zeros2 ?N ?F)
         = Inr (?N, anf)" "shape anf = [?N, ?F]"
    by blast
  from stack_edge_features_valid[OF ok v] obtain aef :: "'a ndarray" where
    aef: "stack_edge_features (edge_features x) 0 0 (zeros2 ?E ?K) = Inr aef"
      "shape aef = [?E, ?K]"
    by blast
  let ?UA = "tabulate2 ?S ?F (\<lambda>i j. sum_list (map (\<lambda>k. get2 um k i * get2 anf k j) [0..<?N]))"
  let ?PA = "tabulate2 ?K (?S\<^sup>2) (\<lambda>i j. sum_list (map (\<lambda>e. get2 aef e i * get2 pw e j) [0..<?E]))"
  have d1: "dot2 (transpose2 um) anf = Inr ?UA" by (rule dot2_transpose[OF um anf(2)])
  have d2: "dot2 (transpose2 aef) pw = Inr ?PA" by (rule dot2_transpose[OF aef(2) pw])
  have r1: "block_ravel ?UA ?cutsU = Inr (diagonal_blocks ?UA ?cutsU)"
    by (rule block_ravel_layout[OF _ _ lenS lenF T])
       (simp_all add: n_states_total_def n_features_total_def)
  have r2: "block_ravel ?PA ?cutsP = Inr (diagonal_blocks ?PA ?cutsP)"
    by (rule block_ravel_layout[OF _ _ lenA _ TT])
       (simp_all add: n_edge_features_total_def sum_list_state_products[OF lenS])
  have l1: "length (diagonal_blocks ?UA ?cutsU) = unary_size m"
    using length_diagonal_blocks_layout[OF lenS lenF, of ?UA] by (simp add: unary_size_def)
  have l2: "length (diagonal_blocks ?PA ?cutsP) = pairwise_size m"
    using length_diagonal_blocks_layout[OF lenA length_state_products, of ?PA]
    by (simp add: pairwise_size_by_index[OF ok])
  have sp: "state_products_of m = Inr (state_products m)" by (rule state_products_of_ok[OF lenS])
  have "assemble_joint_feature m x ?N ?E um pw
      = Inr (diagonal_blocks ?UA ?cutsU @ diagonal_blocks ?PA ?cutsP)"
    by (simp add: assemble_joint_feature_def anf(1) d1 aef(1) bPW_std_def d2 r1 r2 l1 l2 sp
        wf_model_sizes[OF wf] assert_size_def)
  with aef(1) show ?thesis by blast
qed

lemma assemble_valid_length:
  fixes um pw :: "('a::semiring_1) ndarray" and x :: "'a graph_instance"
  assumes wf: "wf_model m" and v: "valid_instance m x"
    and um: "shape um = [sum_list (map (n_nodes_of_type x) [0..<n_types m]), n_states_total m]"
    and pw: "shape pw = [sum_list (map edge_block_rows (edges x)), (n_states_total m)\<^sup>2]"
  shows "\<exists>vec. assemble_joint_feature m x (sum_list (map (n_nodes_of_type x) [0..<n_types m]))
         (sum_list (map edge_block_rows (edges x))) um pw = Inr vec
       \<and> length vec = unary_size m + pairwise_size m"
proof -
  from wf have ok: "layout_ok m" by (simp add: wf_model_def)
  then have lenS: "length (l_n_states m) = n_types m" and lenF: "length (l_n_features m) = n_types m"
    by (simp_all add: layout_ok_def)
  have lenA: "length (flat (a_n_edge_features m)) = n_types m * n_types m"
    by (rule layout_ok_flat(1)[OF ok])
  from assemble_valid[OF assms] obtain anf aef :: "'a ndarray" where
    r: "assemble_joint_feature m x (sum_list (map (n_nodes_of_type x) [0..<n_types m]))
         (sum_list (map edge_block_rows (edges x))) um pw
       = Inr (diagonal_blocks
                (tabulate2 (n_states_total m) (n_features_total m)
                   (\<lambda>i j. sum_list (map (\<lambda>k. get2 um k i * get2 anf k j)
                      [0..<sum_list (map (n_nodes_of_type x) [0..<n_types m])])))
                ((0, 0) # zip (cumsum (l_n_states m)) (cumsum (l_n_features m)))
              @ diagonal_blocks
                (tabulate2 (n_edge_features_total m) ((n_states_total m)\<^sup>2)
                   (\<lambda>i j. sum_list (map (\<lambda>e. get2 aef e i * get2 pw e j)
                      [0..<sum_list (map edge_block_rows (edges x))])))
                ((0, 0) # zip (cumsum (flat (a_n_edge_features m))) (cumsum (state_products m))))"
    by blast
  show ?thesis
    unfolding r
    using length_diagonal_blocks_layout[OF lenS lenF, where ?'a = 'a]
      length_diagonal_blocks_layout[OF lenA length_state_products, where ?'a = 'a]
    by (simp add: unary_size_def pairwise_size_by_index[OF ok])
qed

lemma joint_feature_valid_length:
  fixes x :: "('a::semiring_1) graph_instance"
  assumes wf: "wf_model m" and v: "valid_instance m x" and l: "valid_labeling m x y"
  shows "\<exists>vec. joint_feature m x (Discrete y) = Inr vec
     \<and> length vec = unary_size m + pairwise_size m"
proof -
  from wf have ok: "layout_ok m" by (simp add: wf_model_def)
  have um: "shape (onehot_unary m y :: 'a ndarray)
      = [sum_list (map (n_nodes_of_type x) [0..<n_types m]), n_states_total m]"
    using l by (rule shape_onehot_unary)
  have pw: "shape (onehot_pairwise m x y :: 'a ndarray)
      = [sum_list (map edge_block_rows (edges x)), (n_states_total m)\<^sup>2]"
    using v by (rule shape_onehot_pairwise)
  from assemble_valid_length[OF wf v um pw] joint_feature_discrete_valid[OF ok v l]
  show ?thesis by simp
qed



lemma wf_model_encoder: "wf_model encoder_model"
proof -
  have "set_size_joint_feature encoder_model = Inr encoder_model"
    by code_simp
  with layout_ok_encoder show ?thesis by (simp add: wf_model_def)
qed

lemma valid_example_instance: "valid_instance encoder_model example_instance"
  by code_simp

lemma valid_example_labeling: "valid_labeling encoder_model example_instance [[0, 1], [2]]"
  by code_simp

lemma joint_feature_example:
  "joint_feature encoder_model example_instance (Discrete [[0, 1], [2]])
   = Inr [1, 2, 3, 4, 5, 6, 0, 0, 0, 0, 7, 8, 0, 5, 0, 0, 0, 0, 1, 0, 0, 3, 0,
          0, 2, 0, 0, 4, 0, 0, 0, 0, 0, 0, 0, 0, 0, 0, 0, 0]"
  by code_simp



text \<open>
  Claim C4. For a constructed model, a valid instance and a valid discrete labeling,
  \<^verbatim>\<open>joint_feature\<close> of the labeling is \<^verbatim>\<open>joint_feature\<close> of the one-hot marginals of the
  labeling, and it is a vector, not an error.
\<close>

theorem joint_feature_onehot_marginals:
  fixes x :: "('a::semiring_1) graph_instance"
  assumes "wf_model m" "valid_instance m x" "valid_labeling m x y"
  shows "joint_feature m x (Discrete y)
       = joint_feature m x (Relaxed (onehot_unary m y) (onehot_pairwise m x y))
     \<and> (\<exists>vec. joint_feature m x (Discrete y) = Inr vec)"
proof -
  from assms(1) have ok: "layout_ok m" by (simp add: wf_model_def)
  from joint_feature_discrete_valid[OF ok assms(2,3)]
    joint_feature_relaxed_onehot[OF ok assms(2,3)]
    joint_feature_valid_length[OF assms]
  show ?thesis by auto
qed

theorem joint_feature_onehot_marginals_witness:
  "wf_model encoder_model \<and> valid_instance encoder_model example_instance
   \<and> valid_labeling encoder_model example_instance [[0, 1], [2]]
   \<and> onehot_unary encoder_model [[0, 1], [2]]
       = (NdArray [3, 5] [1, 0, 0, 0, 0, 0, 1, 0, 0, 0, 0, 0, 0, 0, 1] :: int ndarray)
   \<and> joint_feature encoder_model example_instance (Discrete [[0, 1], [2]])
       = joint_feature encoder_model example_instance
           (Relaxed (onehot_unary encoder_model [[0, 1], [2]])
                    (onehot_pairwise encoder_model example_instance [[0, 1], [2]]))
   \<and> joint_feature encoder_model example_instance (Discrete [[0, 1], [2]])
       = Inr [1, 2, 3, 4, 5, 6, 0, 0, 0, 0, 7, 8, 0, 5, 0, 0, 0, 0, 1, 0, 0, 3, 0,
              0, 2, 0, 0, 4, 0, 0, 0, 0, 0, 0, 0, 0, 0, 0, 0, 0]"
proof -
  have u: "onehot_unary encoder_model [[0, 1], [2]]
       = (NdArray [3, 5] [1, 0, 0, 0, 0, 0, 1, 0, 0, 0, 0, 0, 0, 0, 1] :: int ndarray)"
    by code_simp
  note joint_feature_onehot_marginals[OF wf_model_encoder valid_example_instance
      valid_example_labeling, THEN conjunct1]
  with u joint_feature_example wf_model_encoder valid_example_instance valid_example_labeling
  show ?thesis by (intro conjI)
qed


end
